theory Spec2Isabelle
  imports
    Main
    "HOL-Library.Word"
    "HOL-Library.Char_ord"
    "HOL-Library.List_Lexorder"
    "HOL-Library.AList"
    "HOL-Library.Sublist"
begin

unbundle bit_operations_syntax

section \<open>ellycache: the scheduled refresh job and the HTTP handler\<close>

text \<open>
  The development follows \<^verbatim>\<open>main.go\<close> and \<^verbatim>\<open>model.go\<close>. Go strings and byte slices are
  \<^typ>\<open>string\<close> (lists of 8-bit characters). The database, the clock, the cron daemon and
  \<^verbatim>\<open>os.CreateTemp\<close> are inputs of a run; the cache and the temporary files are the state.
  Goroutines are not modelled: a job run and a request are each one atomic step.
\<close>

subsection \<open>Characters and number formatting\<close>

definition dquote :: char where
  "dquote = CHR 0x22"

definition bslash :: char where
  "bslash = CHR 0x5C"

definition newline :: char where
  "newline = CHR 0x0A"

text \<open>One lower-case hexadecimal digit, as the table \<^verbatim>\<open>"0123456789abcdef"\<close> gives it.\<close>

definition hex_digit :: "int \<Rightarrow> char" where
  "hex_digit d = ''0123456789abcdef'' ! nat (d mod 16)"

definition dec_digit :: "int \<Rightarrow> char" where
  "dec_digit d = ''0123456789'' ! nat (d mod 10)"

text \<open>
  The digits of a non-negative number in a base, most significant first, as
  \<^verbatim>\<open>strconv\<close> produces them for \<^verbatim>\<open>fmt\<close>.
\<close>

function digits :: "int \<Rightarrow> (int \<Rightarrow> char) \<Rightarrow> int \<Rightarrow> string" where
  "digits base dig n =
     (if n < base \<or> base < 2 then [dig n]
      else digits base dig (n div base) @ [dig (n mod base)])"
  by pat_completeness auto
termination
  by (relation "measure (\<lambda>(base, dig, n). nat n)") (auto intro: int_div_less_self)

declare digits.simps [simp del]

text \<open>\<^verbatim>\<open>%d\<close> of a Go \<^verbatim>\<open>int\<close>: decimal digits, a minus sign for a negative number.\<close>

definition fmt_d :: "int \<Rightarrow> string" where
  "fmt_d i =
     (if i < 0 then CHR ''-'' # digits 10 dec_digit (- i)
      else digits 10 dec_digit i)"

text \<open>\<^verbatim>\<open>%x\<close> of a \<^verbatim>\<open>uint64\<close>: lower-case hexadecimal, no padding.\<close>

definition fmt_x :: "64 word \<Rightarrow> string" where
  "fmt_x h = digits 16 hex_digit (uint h)"

subsection \<open>The 64-bit xxHash of \<^verbatim>\<open>github.com/cespare/xxhash/v2\<close>\<close>

text \<open>
  The digest of the library is modelled by the bytes written to it so far;
  \<^verbatim>\<open>Sum64\<close> is XXH64 with seed 0 of those bytes.
\<close>

definition prime1 :: "64 word" where "prime1 = 11400714785074694791"
definition prime2 :: "64 word" where "prime2 = 14029467366897019727"
definition prime3 :: "64 word" where "prime3 = 1609587929392839161"
definition prime4 :: "64 word" where "prime4 = 9650029242287828579"
definition prime5 :: "64 word" where "prime5 = 2870177450012600261"

definition rol :: "nat \<Rightarrow> 64 word \<Rightarrow> 64 word" where
  "rol r x = push_bit r x OR drop_bit (64 - r) x"

definition round64 :: "64 word \<Rightarrow> 64 word \<Rightarrow> 64 word" where
  "round64 acc input = rol 31 (acc + input * prime2) * prime1"

definition mergeRound :: "64 word \<Rightarrow> 64 word \<Rightarrow> 64 word" where
  "mergeRound acc val = (acc XOR round64 0 val) * prime1 + prime4"

text \<open>Little-endian reading of a byte string.\<close>

fun le_word :: "string \<Rightarrow> 64 word" where
  "le_word [] = 0"
| "le_word (c # cs) = of_nat (of_char c) + 256 * le_word cs"

definition u64 :: "string \<Rightarrow> 64 word" where
  "u64 b = le_word (take 8 b)"

definition u32 :: "string \<Rightarrow> 64 word" where
  "u32 b = le_word (take 4 b)"

fun stripes :: "string \<Rightarrow> 64 word \<times> 64 word \<times> 64 word \<times> 64 word
    \<Rightarrow> (64 word \<times> 64 word \<times> 64 word \<times> 64 word) \<times> string" where
  "stripes b (v1, v2, v3, v4) =
     (if 32 \<le> length b
      then stripes (drop 32 b)
             (round64 v1 (u64 b), round64 v2 (u64 (drop 8 b)),
              round64 v3 (u64 (drop 16 b)), round64 v4 (u64 (drop 24 b)))
      else ((v1, v2, v3, v4), b))"

fun tail8 :: "string \<Rightarrow> 64 word \<Rightarrow> 64 word \<times> string" where
  "tail8 b h =
     (if 8 \<le> length b
      then tail8 (drop 8 b) (rol 27 (h XOR round64 0 (u64 b)) * prime1 + prime4)
      else (h, b))"

definition tail4 :: "string \<Rightarrow> 64 word \<Rightarrow> 64 word \<times> string" where
  "tail4 b h =
     (if 4 \<le> length b
      then (rol 23 (h XOR u32 b * prime1) * prime2 + prime3, drop 4 b)
      else (h, b))"

fun tail1 :: "string \<Rightarrow> 64 word \<Rightarrow> 64 word" where
  "tail1 [] h = h"
| "tail1 (c # cs) h = tail1 cs (rol 11 (h XOR of_nat (of_char c) * prime5) * prime1)"

definition avalanche :: "64 word \<Rightarrow> 64 word" where
  "avalanche h0 =
     (let h1 = (h0 XOR drop_bit 33 h0) * prime2;
          h2 = (h1 XOR drop_bit 29 h1) * prime3
      in h2 XOR drop_bit 32 h2)"

definition Sum64 :: "string \<Rightarrow> 64 word" where
  "Sum64 b =
     (let n = length b;
          (h0, rest) =
            (if 32 \<le> n
             then (case stripes b (prime1 + prime2, prime2, 0, - prime1) of
                     ((v1, v2, v3, v4), r) \<Rightarrow>
                       (mergeRound (mergeRound (mergeRound (mergeRound
                          (rol 1 v1 + rol 7 v2 + rol 12 v3 + rol 18 v4) v1) v2) v3) v4, r))
             else (prime5, b));
          (h1, r8) = tail8 rest (h0 + of_nat n);
          (h2, r4) = tail4 r8 h1
      in avalanche (tail1 r4 h2))"

subsection \<open>Row values and \<^verbatim>\<open>encoding/json\<close>\<close>

text \<open>
  The values \<^verbatim>\<open>rows.Values()\<close> delivers, as far as the development needs them: SQL NULL,
  booleans, integers, text, and the float NaN, which \<^verbatim>\<open>json.Marshal\<close> refuses.
\<close>

datatype pgvalue = PgNull | PgBool bool | PgInt int | PgText string | PgFloatNaN

text \<open>
  \<^verbatim>\<open>utf8.DecodeRuneInString\<close>, reduced to the size of the rune at the head of a string whose
  first byte is not ASCII: 0 stands for an invalid encoding.
\<close>

definition size_of_first :: "nat \<Rightarrow> nat" where
  "size_of_first b0 =
     (if 0xC2 \<le> b0 \<and> b0 \<le> 0xDF then 2
      else if 0xE0 \<le> b0 \<and> b0 \<le> 0xEF then 3
      else if 0xF0 \<le> b0 \<and> b0 \<le> 0xF4 then 4
      else 0)"

definition accept_lo :: "nat \<Rightarrow> nat" where
  "accept_lo b0 = (if b0 = 0xE0 then 0xA0 else if b0 = 0xF0 then 0x90 else 0x80)"

definition accept_hi :: "nat \<Rightarrow> nat" where
  "accept_hi b0 = (if b0 = 0xED then 0x9F else if b0 = 0xF4 then 0x8F else 0xBF)"

definition cont_byte :: "nat \<Rightarrow> bool" where
  "cont_byte b = (0x80 \<le> b \<and> b \<le> 0xBF)"

definition rune_size :: "string \<Rightarrow> nat" where
  "rune_size s =
     (case map of_char (take 4 s) of
        [] \<Rightarrow> 0
      | b0 # rest \<Rightarrow>
          (let sz = size_of_first b0 in
           if sz = 0 \<or> length rest + 1 < sz then 0
           else if rest ! 0 < accept_lo b0 \<or> accept_hi b0 < rest ! 0 then 0
           else if sz = 2 then 2
           else if \<not> cont_byte (rest ! 1) then 0
           else if sz = 3 then 3
           else if \<not> cont_byte (rest ! 2) then 0
           else 4))"

text \<open>
  The string encoder of \<^verbatim>\<open>encoding/json\<close> with HTML escaping, which \<^verbatim>\<open>json.Marshal\<close>
  uses for text values and for the keys of a map.
\<close>

definition escape_ascii :: "char \<Rightarrow> string" where
  "escape_ascii c =
     (let b = (of_char c :: nat) in
      if c = bslash \<or> c = dquote then [bslash, c]
      else if b = 0x08 then [bslash, CHR ''b'']
      else if b = 0x0C then [bslash, CHR ''f'']
      else if b = 0x0A then [bslash, CHR ''n'']
      else if b = 0x0D then [bslash, CHR ''r'']
      else if b = 0x09 then [bslash, CHR ''t'']
      else if b < 0x20 \<or> c = CHR ''<'' \<or> c = CHR ''>'' \<or> c = CHR ''&''
        then [bslash, CHR ''u'', CHR ''0'', CHR ''0'',
              hex_digit (int b div 16), hex_digit (int b mod 16)]
      else [c])"

function appendString_body :: "string \<Rightarrow> string" where
  "appendString_body [] = []"
| "appendString_body (c # cs) =
     (if (of_char c :: nat) < 0x80 then escape_ascii c @ appendString_body cs
      else if rune_size (c # cs) = 0 then bslash # ''ufffd'' @ appendString_body cs
      else if map of_char (take 3 (c # cs)) = [0xE2, 0x80, 0xA8 :: nat]
        then bslash # ''u2028'' @ appendString_body (drop 2 cs)
      else if map of_char (take 3 (c # cs)) = [0xE2, 0x80, 0xA9 :: nat]
        then bslash # ''u2029'' @ appendString_body (drop 2 cs)
      else take (rune_size (c # cs)) (c # cs)
           @ appendString_body (drop (rune_size (c # cs) - 1) cs))"
  by pat_completeness auto
termination
  by (relation "measure length") auto

definition appendString :: "string \<Rightarrow> string" where
  "appendString s = dquote # appendString_body s @ [dquote]"

text \<open>A failed \<^verbatim>\<open>json.Marshal\<close> is \<open>Inl\<close> with the message of the error.\<close>

fun marshal_value :: "pgvalue \<Rightarrow> string + string" where
  "marshal_value PgNull = Inr ''null''"
| "marshal_value (PgBool b) = Inr (if b then ''true'' else ''false'')"
| "marshal_value (PgInt i) = Inr (fmt_d i)"
| "marshal_value (PgText s) = Inr (appendString s)"
| "marshal_value PgFloatNaN = Inl ''json: unsupported value: NaN''"

fun marshal_elems :: "(string \<times> pgvalue) list \<Rightarrow> string + string list" where
  "marshal_elems [] = Inr []"
| "marshal_elems ((k, v) # kvs) =
     (case marshal_value v of
        Inl msg \<Rightarrow> Inl msg
      | Inr j \<Rightarrow>
          (case marshal_elems kvs of
             Inl msg \<Rightarrow> Inl msg
           | Inr js \<Rightarrow> Inr ((k @ j) # js)))"

fun join :: "string \<Rightarrow> string list \<Rightarrow> string" where
  "join sep [] = []"
| "join sep [s] = s"
| "join sep (s # t # ss) = s @ sep @ join sep (t # ss)"

text \<open>
  A row is what \<^verbatim>\<open>query\<close> hands to \<^verbatim>\<open>json.Marshal\<close>: the slice of values, or a
  \<^verbatim>\<open>map[string]any\<close>. The map is an association list with distinct keys; the encoder
  writes its entries sorted by key.
\<close>

datatype row = RowArray "pgvalue list" | RowObject "(string \<times> pgvalue) list"

fun json_Marshal :: "row \<Rightarrow> string + string" where
  "json_Marshal (RowArray values) =
     (case marshal_elems (map (\<lambda>v. ([], v)) values) of
        Inl msg \<Rightarrow> Inl msg
      | Inr js \<Rightarrow> Inr (''['' @ join '','' js @ '']''))"
| "json_Marshal (RowObject m) =
     (case marshal_elems (map (\<lambda>(k, v). (appendString k @ '':'', v)) (sort_key fst m)) of
        Inl msg \<Rightarrow> Inl msg
      | Inr js \<Rightarrow> Inr (''{'' @ join '','' js @ ''}''))"

subsection \<open>Configuration (\<^verbatim>\<open>model.go\<close>)\<close>

record EndpointConfig =
  Path :: string
  SQL :: string
  SQLTimeout :: string
  Schedule :: string
  RowFormat :: string
  FileBacked :: bool


subsection \<open>The query (\<^verbatim>\<open>query\<close> in \<^verbatim>\<open>main.go\<close>)\<close>

text \<open>
  What the connection pool answers to one execution of the endpoint's SQL under its
  timeout: an error of \<^verbatim>\<open>pool.Query\<close>, or the column names and, for each \<^verbatim>\<open>rows.Next()\<close>
  that returns true, the outcome of \<^verbatim>\<open>rows.Values()\<close>, followed by \<^verbatim>\<open>rows.Err()\<close>.
\<close>

record db_reply =
  query_err :: "string option"
  field_names :: "string list"
  row_events :: "(string + pgvalue list) list"
  rows_err :: "string option"

text \<open>A returned \<^verbatim>\<open>error\<close> with its message, or a run-time panic.\<close>

datatype fault = Error string | Panic string

text \<open>
  The loop \<^verbatim>\<open>for i, v := range values { m[columns[i]] = v }\<close>; indexing past the end of
  \<^verbatim>\<open>columns\<close> panics.
\<close>

fun fill_map :: "string list \<Rightarrow> nat \<Rightarrow> pgvalue list \<Rightarrow> (string \<times> pgvalue) list
    \<Rightarrow> fault + (string \<times> pgvalue) list" where
  "fill_map columns i [] m = Inr m"
| "fill_map columns i (v # vs) m =
     (if i < length columns
      then fill_map columns (Suc i) vs (AList.update (columns ! i) v m)
      else Inl (Panic ''index out of range''))"

definition make_row :: "string \<Rightarrow> string list \<Rightarrow> pgvalue list \<Rightarrow> fault + row" where
  "make_row rowformat columns values =
     (if rowformat = ''array'' then Inr (RowArray values)
      else (case fill_map columns 0 values [] of
              Inl f \<Rightarrow> Inl f
            | Inr m \<Rightarrow> Inr (RowObject m)))"

text \<open>
  The loop over the rows. \<open>first\<close> is the flag of the source, \<open>digest\<close> the bytes written
  to the hash so far and \<open>w\<close> the bytes written to the writer so far. Errors of the writer
  are ignored by the source and absent here.
\<close>

fun rows_loop :: "string \<Rightarrow> string list \<Rightarrow> (string + pgvalue list) list \<Rightarrow> bool \<Rightarrow> string
    \<Rightarrow> string \<Rightarrow> string \<times> (fault + string)" where
  "rows_loop rowformat columns [] first digest w = (w, Inr digest)"
| "rows_loop rowformat columns (ev # evs) first digest w =
     (case ev of
        Inl msg \<Rightarrow> (w, Inl (Error (''query read failed: '' @ msg)))
      | Inr values \<Rightarrow>
          (case make_row rowformat columns values of
             Inl f \<Rightarrow> (w, Inl f)
           | Inr r \<Rightarrow>
               (case json_Marshal r of
                  Inl msg \<Rightarrow> (w, Inl (Error (''failed to marshal to json: '' @ msg)))
                | Inr j \<Rightarrow>
                    rows_loop rowformat columns evs False (digest @ j)
                      (w @ (if first then [] else '','' @ [newline]) @ ''  '' @ j))))"

text \<open>
  \<^verbatim>\<open>query\<close> returns the bytes it has written to \<open>w\<close> together with the error or the hash.
  The timeout only decides what the database answers, which is the input \<open>db\<close>.
\<close>

definition query :: "EndpointConfig \<Rightarrow> db_reply \<Rightarrow> string \<Rightarrow> string \<times> (fault + 64 word)" where
  "query e db w =
     (case query_err db of
        Some msg \<Rightarrow> (w, Inl (Error (''query failed: '' @ msg)))
      | None \<Rightarrow>
          (let columns = (if RowFormat e \<noteq> ''array'' then field_names db else [])
           in case rows_loop (RowFormat e) columns (row_events db) True [] (w @ ''['' @ [newline]) of
                (w2, Inl f) \<Rightarrow> (w2, Inl f)
              | (w2, Inr digest) \<Rightarrow>
                  (case rows_err db of
                     Some msg \<Rightarrow> (w2, Inl (Error (''query error: '' @ msg)))
                   | None \<Rightarrow> (w2 @ [newline] @ '']'' @ [newline], Inr (Sum64 digest)))))"

text \<open>
  Three views of \<^verbatim>\<open>query\<close> for stating its properties. \<open>columns_of\<close> is the slice
  \<^verbatim>\<open>columns\<close> after the first loop. \<open>row_json\<close> is what the body of the row loop computes
  from one row before it writes: the JSON text \<open>j\<close>, or the fault it returns.
  \<open>rows_json\<close> collects the texts of all rows up to the first fault. \<open>indent\<close> is the
  two spaces written before each row.
\<close>

definition columns_of :: "EndpointConfig \<Rightarrow> db_reply \<Rightarrow> string list" where
  "columns_of e db = (if RowFormat e \<noteq> ''array'' then field_names db else [])"

definition row_json :: "string \<Rightarrow> string list \<Rightarrow> string + pgvalue list \<Rightarrow> fault + string" where
  "row_json rowformat columns ev =
     (case ev of
        Inl msg \<Rightarrow> Inl (Error (''query read failed: '' @ msg))
      | Inr vals \<Rightarrow>
          (case make_row rowformat columns vals of
             Inl f \<Rightarrow> Inl f
           | Inr r \<Rightarrow>
               (case json_Marshal r of
                  Inl msg \<Rightarrow> Inl (Error (''failed to marshal to json: '' @ msg))
                | Inr j \<Rightarrow> Inr j)))"

fun rows_json :: "string \<Rightarrow> string list \<Rightarrow> (string + pgvalue list) list \<Rightarrow> fault + string list" where
  "rows_json rowformat columns [] = Inr []"
| "rows_json rowformat columns (ev # evs) =
     (case row_json rowformat columns ev of
        Inl f \<Rightarrow> Inl f
      | Inr j \<Rightarrow>
          (case rows_json rowformat columns evs of
             Inl f \<Rightarrow> Inl f
           | Inr js \<Rightarrow> Inr (j # js)))"

definition indent :: "string \<Rightarrow> string" where
  "indent j = ''  '' @ j"

text \<open>
  A JSON text without the white space between its tokens (space, newline, tab and
  carriage return outside of strings): two texts with the same compact form are the same
  JSON value.
\<close>

fun compact :: "bool \<Rightarrow> bool \<Rightarrow> string \<Rightarrow> string" where
  "compact in_string escaped [] = []"
| "compact in_string escaped (c # cs) =
     (if in_string then
        c # (if escaped then compact True False cs
             else if c = bslash then compact True True cs
             else if c = dquote then compact False False cs
             else compact True False cs)
      else if c = CHR '' '' \<or> c = newline \<or> c = CHR 0x09 \<or> c = CHR 0x0D
        then compact False False cs
      else c # compact (c = dquote) False cs)"

definition json_compact :: "string \<Rightarrow> string" where
  "json_compact s = compact False False s"

subsection \<open>Time (\<^verbatim>\<open>package time\<close>)\<close>

text \<open>
  A \<^verbatim>\<open>time.Time\<close> is its wall-clock reading in nanoseconds since the Unix epoch; a
  \<^verbatim>\<open>time.Duration\<close> is a 64-bit count of nanoseconds. The zero \<^verbatim>\<open>Time\<close> is
  January 1 of year 1, the value of \<^verbatim>\<open>Entry.Next\<close> of an entry the cron daemon has no next
  activation for.
\<close>

definition zero_time :: int where
  "zero_time = - 62135596800 * 1000000000"

definition minDuration :: int where
  "minDuration = - (2 ^ 63)"

definition maxDuration :: int where
  "maxDuration = 2 ^ 63 - 1"

text \<open>\<^verbatim>\<open>t.Sub(u)\<close> saturates where the difference does not fit a \<^verbatim>\<open>Duration\<close>.\<close>

definition time_Sub :: "int \<Rightarrow> int \<Rightarrow> int" where
  "time_Sub t u =
     (if t - u < minDuration then minDuration
      else if maxDuration < t - u then maxDuration
      else t - u)"

text \<open>Go's integer division and remainder truncate towards zero.\<close>

definition tdiv :: "int \<Rightarrow> int \<Rightarrow> int" where
  "tdiv a b = sgn a * sgn b * (\<bar>a\<bar> div \<bar>b\<bar>)"

definition trem :: "int \<Rightarrow> int \<Rightarrow> int" where
  "trem a b = a - b * tdiv a b"

text \<open>
  \<^verbatim>\<open>Duration.Seconds\<close> computes in \<^verbatim>\<open>float64\<close>. A finite \<^verbatim>\<open>float64\<close> is modelled by a
  fraction (numerator, positive denominator) that has its value; \<open>float64\<close> rounds a
  fraction to the nearest value with a 53-bit significand, ties to even. The exponent
  range is left out: the magnitudes that occur lie between \<open>10\<^sup>-\<^sup>9\<close> and \<open>10\<^sup>1\<^sup>0\<close>.
\<close>

type_synonym frac = "int \<times> int"

text \<open>The number of binary digits of a positive number.\<close>

function bit_length :: "int \<Rightarrow> int" where
  "bit_length n = (if n \<le> 0 then 0 else 1 + bit_length (n div 2))"
  by pat_completeness auto
termination
  by (relation "measure nat") auto

declare bit_length.simps [simp del]

text \<open>\<open>pow2_le k (a, b)\<close> is \<open>2\<^sup>k \<le> a / b\<close>, and \<open>floor_log2\<close> the largest such \<open>k\<close>, for \<open>a, b > 0\<close>.\<close>

definition pow2_le :: "int \<Rightarrow> frac \<Rightarrow> bool" where
  "pow2_le k q =
     (case q of (a, b) \<Rightarrow>
        if 0 \<le> k then 2 ^ nat k * b \<le> a else b \<le> a * 2 ^ nat (- k))"

definition floor_log2 :: "frac \<Rightarrow> int" where
  "floor_log2 q =
     (case q of (a, b) \<Rightarrow>
        (let k = bit_length a - bit_length b
         in if pow2_le k q then k else k - 1))"

definition float64 :: "frac \<Rightarrow> frac" where
  "float64 q =
     (case q of (a, b) \<Rightarrow>
        if a = 0 then (0, 1)
        else (let s = floor_log2 (\<bar>a\<bar>, b) - 52;
                  n = (if s < 0 then a * 2 ^ nat (- s) else a);
                  d = (if s < 0 then b else b * 2 ^ nat s);
                  f = n div d;
                  r = n mod d;
                  m = (if 2 * r < d \<or> (2 * r = d \<and> even f) then f else f + 1)
              in if s < 0 then (m, 2 ^ nat (- s)) else (m * 2 ^ nat s, 1)))"

definition frac_add :: "frac \<Rightarrow> frac \<Rightarrow> frac" where
  "frac_add p q = (case p of (a, b) \<Rightarrow> case q of (c, d) \<Rightarrow> (a * d + c * b, b * d))"

text \<open>Division by a positive whole number.\<close>

definition frac_div :: "frac \<Rightarrow> int \<Rightarrow> frac" where
  "frac_div p c = (case p of (a, b) \<Rightarrow> (a, b * c))"

text \<open>\<^verbatim>\<open>float64(sec) + float64(nsec)/1e9\<close>, each operation rounded.\<close>

definition Seconds :: "int \<Rightarrow> frac" where
  "Seconds d =
     float64 (frac_add (float64 (tdiv d 1000000000, 1))
                       (float64 (frac_div (float64 (trem d 1000000000, 1)) 1000000000)))"

text \<open>The conversion \<^verbatim>\<open>int(x)\<close> of a \<^verbatim>\<open>float64\<close> drops the fraction.\<close>

definition go_int :: "frac \<Rightarrow> int" where
  "go_int q = (case q of (a, b) \<Rightarrow> tdiv a b)"

text \<open>
  \<^verbatim>\<open>Format(http.TimeFormat)\<close> of a UTC time given in whole seconds since the Unix epoch:
  the proleptic Gregorian calendar date, as in \<^verbatim>\<open>Mon, 02 Jan 2006 15:04:05 GMT\<close>.
\<close>

definition appendInt :: "int \<Rightarrow> nat \<Rightarrow> string" where
  "appendInt x width =
     (let ds = digits 10 dec_digit \<bar>x\<bar>
      in (if x < 0 then ''-'' else []) @ replicate (width - length ds) CHR ''0'' @ ds)"

definition civil_from_days :: "int \<Rightarrow> int \<times> int \<times> int" where
  "civil_from_days days =
     (let z = days + 719468;
          era = z div 146097;
          doe = z - era * 146097;
          yoe = (doe - doe div 1460 + doe div 36524 - doe div 146096) div 365;
          doy = doe - (365 * yoe + yoe div 4 - yoe div 100);
          mp = (5 * doy + 2) div 153;
          d = doy - (153 * mp + 2) div 5 + 1;
          m = (if mp < 10 then mp + 3 else mp - 9);
          y = yoe + era * 400 + (if m \<le> 2 then 1 else 0)
      in (y, m, d))"

definition http_date :: "int \<Rightarrow> string" where
  "http_date secs =
     (let days = secs div 86400;
          sod = secs mod 86400;
          wd = [''Sun'', ''Mon'', ''Tue'', ''Wed'', ''Thu'', ''Fri'', ''Sat''] ! nat ((days + 4) mod 7)
      in case civil_from_days days of
           (y, m, d) \<Rightarrow>
             wd @ '', '' @ appendInt d 2 @ '' ''
             @ [''Jan'', ''Feb'', ''Mar'', ''Apr'', ''May'', ''Jun'',
                ''Jul'', ''Aug'', ''Sep'', ''Oct'', ''Nov'', ''Dec''] ! nat (m - 1)
             @ '' '' @ appendInt y 4 @ '' ''
             @ appendInt (sod div 3600) 2 @ '':'' @ appendInt (sod mod 3600 div 60) 2
             @ '':'' @ appendInt (sod mod 60) 2 @ '' GMT'')"

text \<open>\<^verbatim>\<open>t.Truncate(time.Second).In(time.UTC).Format(http.TimeFormat)\<close>.\<close>

definition format_queried_at :: "int \<Rightarrow> string" where
  "format_queried_at t = http_date (t div 1000000000)"

text \<open>\<^verbatim>\<open>int(next.Sub(now).Seconds())\<close>, the number put after \<^verbatim>\<open>max-age=\<close>.\<close>

definition freshness :: "int \<Rightarrow> int \<Rightarrow> int" where
  "freshness nxt now = go_int (Seconds (time_Sub nxt now))"

subsection \<open>The cache and the temporary files\<close>

record EndpointResult =
  QueriedAt :: string
  CacheControl :: string
  ValidUntil :: int
  ETag :: string
  Result :: string
  File :: string

text \<open>
  The content of a file, as far as \<^verbatim>\<open>symmecrypt\<close> tells contents apart: \<open>Sealed p\<close> is the
  encryption of \<open>p\<close> under the key of this process, which \<^verbatim>\<open>symmecrypt.NewReader\<close>
  decrypts to \<open>p\<close>; \<open>Garbage\<close> is any other content, for which decryption fails.
\<close>

datatype blob = Sealed string | Garbage string

text \<open>
  The state: the \<^verbatim>\<open>EndpointResult\<close> objects allocated so far (a pointer is an index into
  \<open>heap\<close>), the \<^verbatim>\<open>sync.Map\<close> from paths to pointers, and the files by name.
\<close>

record world =
  heap :: "EndpointResult list"
  cache :: "string \<rightharpoonup> nat"
  files :: "string \<rightharpoonup> blob"

text \<open>
  The inputs of one run of the job: the answer of the database, the outcome of
  \<^verbatim>\<open>os.CreateTemp("", "ellycache")\<close> (an error message, or the random part of the name),
  the temporary directory with its separator, the two readings of \<^verbatim>\<open>time.Now()\<close> and
  \<^verbatim>\<open>crond.Entry(j.entryID).Next\<close>.
\<close>

record run_env =
  database :: db_reply
  temp :: "string + string"
  temp_dir :: string
  now_queried :: int
  now_maxage :: int
  entry_next :: int

record Job =
  entryID :: nat
  endpoint :: EndpointConfig

text \<open>\<^verbatim>\<open>os.CreateTemp\<close> never returns a name that exists already.\<close>

definition CreateTemp :: "run_env \<Rightarrow> world \<Rightarrow> string + string" where
  "CreateTemp env st =
     (case temp env of
        Inl msg \<Rightarrow> Inl msg
      | Inr rnd \<Rightarrow>
          (let name = temp_dir env @ ''ellycache'' @ rnd
           in if files st name \<noteq> None then Inl ''file exists'' else Inr name))"

definition etag_of :: "64 word \<Rightarrow> string" where
  "etag_of h = ''W/'' @ [dquote] @ fmt_x h @ [dquote]"

text \<open>\<^verbatim>\<open>&EndpointResult{...}\<close>: a new object, at a new address.\<close>

definition alloc :: "EndpointResult \<Rightarrow> world \<Rightarrow> world \<times> nat" where
  "alloc r st = (st\<lparr>heap := heap st @ [r]\<rparr>, length (heap st))"

definition new_result :: "string \<Rightarrow> string \<Rightarrow> string \<Rightarrow> EndpointResult" where
  "new_result etag res file =
     \<lparr>QueriedAt = [], CacheControl = [], ValidUntil = zero_time,
      ETag = etag, Result = res, File = file\<rparr>"

text \<open>
  \<^verbatim>\<open>makeResult\<close>. The encrypting writer buffers what \<^verbatim>\<open>query\<close> writes; the deferred
  \<^verbatim>\<open>w.Close()\<close> encrypts the buffer into the file on every way out of the function.
\<close>

definition makeResult :: "EndpointConfig \<Rightarrow> run_env \<Rightarrow> world \<Rightarrow> world \<times> (fault + nat)" where
  "makeResult e env st =
     (if FileBacked e then
        (case CreateTemp env st of
           Inl msg \<Rightarrow> (st, Inl (Error (''failed to create temp file: '' @ msg)))
         | Inr name \<Rightarrow>
             (case query e (database env) [] of
                (written, Inl f) \<Rightarrow> (st\<lparr>files := (files st)(name \<mapsto> Sealed written)\<rparr>, Inl f)
              | (written, Inr h) \<Rightarrow>
                  (case alloc (new_result (etag_of h) [] name)
                          (st\<lparr>files := (files st)(name \<mapsto> Sealed written)\<rparr>) of
                     (st1, p) \<Rightarrow> (st1, Inr p))))
      else
        (case query e (database env) [] of
           (written, Inl f) \<Rightarrow> (st, Inl f)
         | (written, Inr h) \<Rightarrow>
             (case alloc (new_result (etag_of h) written []) st of
                (st1, p) \<Rightarrow> (st1, Inr p))))"

text \<open>
  The helper \<^verbatim>\<open>cleanOld\<close> of \<^verbatim>\<open>Job.Run\<close>: \<^verbatim>\<open>os.Remove\<close> takes the name away; where the
  name is already gone the source logs a warning and goes on. A removal that the
  operating system refuses for a file that is there is not modelled.
\<close>

definition cleanOld :: "EndpointResult \<Rightarrow> world \<Rightarrow> world" where
  "cleanOld oldResult st =
     (if File oldResult \<noteq> [] then st\<lparr>files := (files st)(File oldResult := None)\<rparr> else st)"

text \<open>
  \<^verbatim>\<open>Job.Run\<close>. \<open>None\<close> is a panic, which ends the process. Log lines are not part of the
  state.
\<close>

definition Job_Run :: "Job \<Rightarrow> run_env \<Rightarrow> world \<Rightarrow> world option" where
  "Job_Run j env st =
     (case makeResult (endpoint j) env st of
        (st1, Inl (Panic msg)) \<Rightarrow> None
      | (st1, Inl (Error msg)) \<Rightarrow>
          (case cache st1 (Path (endpoint j)) of
             None \<Rightarrow> Some st1
           | Some old \<Rightarrow>
               Some (cleanOld (heap st1 ! old)
                       (st1\<lparr>cache := (cache st1)(Path (endpoint j) := None)\<rparr>)))
      | (st1, Inr p) \<Rightarrow>
          (let newResult = (heap st1 ! p)
                 \<lparr>QueriedAt := format_queried_at (now_queried env),
                  CacheControl := ''max-age='' @ fmt_d (freshness (entry_next env) (now_maxage env))
                                  @ '', immutable''\<rparr>;
               st2 = st1\<lparr>heap := (heap st1)[p := newResult]\<rparr>;
               st3 = st2\<lparr>cache := (cache st2)(Path (endpoint j) \<mapsto> p)\<rparr>
           in case cache st2 (Path (endpoint j)) of
                None \<Rightarrow> Some st3
              | Some old \<Rightarrow> Some (cleanOld (heap st3 ! old) st3)))"

subsection \<open>Serving (\<^verbatim>\<open>httpHandler\<close>)\<close>

text \<open>
  Of a request the handler reads the path and \<^verbatim>\<open>r.Header.Get("If-None-Match")\<close>, which
  is empty when the header is absent. A response is the status, the header map that
  starts empty (keys in the canonical form \<^verbatim>\<open>net/http\<close> stores them in) and the body.
\<close>

record request =
  url_path :: string
  if_none_match :: string

record response =
  status :: nat
  headers :: "string \<rightharpoonup> string"
  body :: string

text \<open>\<^verbatim>\<open>http.Error\<close>; \<^verbatim>\<open>http.NotFound\<close> is \<^verbatim>\<open>http.Error\<close> with \<^verbatim>\<open>404 page not found\<close>.\<close>

definition http_Error :: "(string \<rightharpoonup> string) \<Rightarrow> string \<Rightarrow> nat \<Rightarrow> response" where
  "http_Error hdr msg code =
     \<lparr>status = code,
      headers = (hdr(''Content-Length'' := None))
                  (''Content-Type'' \<mapsto> ''text/plain; charset=utf-8'',
                   ''X-Content-Type-Options'' \<mapsto> ''nosniff''),
      body = msg @ [newline]\<rparr>"

definition sethdr :: "EndpointResult \<Rightarrow> (string \<rightharpoonup> string) \<Rightarrow> (string \<rightharpoonup> string)" where
  "sethdr result hdr =
     hdr(''Etag'' \<mapsto> ETag result,
         ''Last-Modified'' \<mapsto> QueriedAt result,
         ''Cache-Control'' \<mapsto> CacheControl result)"

text \<open>
  The handler returns the state with the response. A failure of writing the body to the
  client is outside the model.
\<close>

definition httpHandler :: "world \<Rightarrow> request \<Rightarrow> world \<times> response" where
  "httpHandler st r =
     (case cache st (url_path r) of
        None \<Rightarrow>
          (st, http_Error [''Cache-Control'' \<mapsto> ''no-cache, no-store''] ''404 page not found'' 404)
      | Some p \<Rightarrow>
          (let result = heap st ! p in
           if if_none_match r = ETag result
           then (st, \<lparr>status = 304, headers = sethdr result Map.empty, body = []\<rparr>)
           else if File result = []
           then (st, \<lparr>status = 200,
                      headers = sethdr result [''Content-Type'' \<mapsto> ''application/json''],
                      body = Result result\<rparr>)
           else (case files st (File result) of
                   None \<Rightarrow>
                     (st, http_Error [''Cache-Control'' \<mapsto> ''no-cache, no-store'']
                            ''Internal Server Error'' 500)
                 | Some (Garbage g) \<Rightarrow>
                     (st, http_Error [''Cache-Control'' \<mapsto> ''no-cache, no-store'']
                            ''Internal Server Error'' 500)
                 | Some (Sealed plain) \<Rightarrow>
                     (st, \<lparr>status = 200,
                           headers = sethdr result [''Content-Type'' \<mapsto> ''application/json''],
                           body = plain\<rparr>))))"

text \<open>A sequence of requests, served one after the other.\<close>

fun serve_all :: "world \<Rightarrow> request list \<Rightarrow> world \<times> response list" where
  "serve_all st [] = (st, [])"
| "serve_all st (r # rs) =
     (case httpHandler st r of
        (st1, resp) \<Rightarrow> (case serve_all st1 rs of (st2, resps) \<Rightarrow> (st2, resp # resps)))"

text \<open>The entry a path is mapped to, read through the pointer.\<close>

definition entry_of :: "world \<Rightarrow> string \<Rightarrow> EndpointResult option" where
  "entry_of st k = (case cache st k of None \<Rightarrow> None | Some p \<Rightarrow> Some (heap st ! p))"

text \<open>
  The entry a successful run publishes for the hash \<open>h\<close> and the bytes \<open>written\<close> by
  \<^verbatim>\<open>query\<close>, with the file \<open>name\<close> when the endpoint is file-backed: the fields as
  \<^verbatim>\<open>makeResult\<close> and \<^verbatim>\<open>Job.Run\<close> set them.
\<close>

definition published_entry :: "Job \<Rightarrow> run_env \<Rightarrow> 64 word \<Rightarrow> string \<Rightarrow> string \<Rightarrow> EndpointResult" where
  "published_entry j env h written name =
     \<lparr>QueriedAt = format_queried_at (now_queried env),
      CacheControl = ''max-age='' @ fmt_d (freshness (entry_next env) (now_maxage env))
                     @ '', immutable'',
      ValidUntil = zero_time,
      ETag = etag_of h,
      Result = (if FileBacked (endpoint j) then [] else written),
      File = (if FileBacked (endpoint j) then name else [])\<rparr>"

text \<open>
  What is seen of the outcome of a run: the entry of a path, its \<^verbatim>\<open>Cache-Control\<close>, and
  the content of a file. After a panic nothing is seen.
\<close>

definition entry_after :: "world option \<Rightarrow> string \<Rightarrow> EndpointResult option" where
  "entry_after w k = (case w of None \<Rightarrow> None | Some st \<Rightarrow> entry_of st k)"

definition file_after :: "world option \<Rightarrow> string \<Rightarrow> blob option" where
  "file_after w name = (case w of None \<Rightarrow> None | Some st \<Rightarrow> files st name)"

definition cache_control_after :: "world option \<Rightarrow> string \<Rightarrow> string option" where
  "cache_control_after w k = map_option CacheControl (entry_after w k)"

text \<open>The response of the handler for a path without an entry.\<close>

definition not_found :: response where
  "not_found = http_Error [''Cache-Control'' \<mapsto> ''no-cache, no-store''] ''404 page not found'' 404"

subsection \<open>Example data\<close>

text \<open>
  An endpoint \<^verbatim>\<open>/x\<close> with object rows, a database answer with the columns \<^verbatim>\<open>col1\<close>,
  \<^verbatim>\<open>col2\<close> and the single row \<^verbatim>\<open>("a", 1)\<close>, a run at 05:20:00 UTC on 14 November 2024
  whose next activation is five minutes later, and the state before the first run.
\<close>

definition ex_cfg :: EndpointConfig where
  "ex_cfg = \<lparr>Path = ''/x'', SQL = ''select col1, col2 from t'', SQLTimeout = [],
             Schedule = ''*/5 * * * *'', RowFormat = ''object'', FileBacked = False\<rparr>"

definition ex_db :: db_reply where
  "ex_db = \<lparr>query_err = None, field_names = [''col1'', ''col2''],
            row_events = [Inr [PgText ''a'', PgInt 1]], rows_err = None\<rparr>"

definition ex_env :: run_env where
  "ex_env = \<lparr>database = ex_db, temp = Inr ''123'', temp_dir = ''/tmp/'',
             now_queried = 1731561600123456789, now_maxage = 1731561600123460000,
             entry_next = 1731561900000000000\<rparr>"

definition ex_world0 :: world where
  "ex_world0 = \<lparr>heap = [], cache = Map.empty, files = Map.empty\<rparr>"

text \<open>A state with one in-memory entry for \<^verbatim>\<open>/x\<close>, and a conditional request for it.\<close>

definition ex_entry :: EndpointResult where
  "ex_entry = \<lparr>QueriedAt = ''Thu, 14 Nov 2024 05:20:00 GMT'',
               CacheControl = ''max-age=299, immutable'', ValidUntil = zero_time,
               ETag = ''W/'' @ [dquote] @ ''4598223d08c4dd54'' @ [dquote],
               Result = ''[]'', File = []\<rparr>"

definition ex_world :: world where
  "ex_world = \<lparr>heap = [ex_entry], cache = [''/x'' \<mapsto> 0], files = Map.empty\<rparr>"

definition ex_req_match :: request where
  "ex_req_match = \<lparr>url_path = ''/x'', if_none_match = ETag ex_entry\<rparr>"

text \<open>
  A state whose entry for \<^verbatim>\<open>/x\<close> names a file that is gone, an unconditional request for
  \<^verbatim>\<open>/x\<close>, and one for a path without an entry.
\<close>

definition ex_entry_file :: EndpointResult where
  "ex_entry_file = ex_entry\<lparr>Result := [], File := ''/tmp/ellycache123''\<rparr>"

definition ex_world_lost :: world where
  "ex_world_lost = \<lparr>heap = [ex_entry_file], cache = [''/x'' \<mapsto> 0], files = Map.empty\<rparr>"

definition ex_req :: request where
  "ex_req = \<lparr>url_path = ''/x'', if_none_match = []\<rparr>"

definition ex_req_other :: request where
  "ex_req_other = \<lparr>url_path = ''/y'', if_none_match = []\<rparr>"


text \<open>
  The jobs of the endpoint, in memory and file-backed; a database answer whose second
  row cannot be read; and a state whose entry for \<^verbatim>\<open>/x\<close> has its file.
\<close>

definition ex_job :: Job where
  "ex_job = \<lparr>entryID = 1, endpoint = ex_cfg\<rparr>"

definition ex_job_file :: Job where
  "ex_job_file = \<lparr>entryID = 1, endpoint = ex_cfg\<lparr>FileBacked := True\<rparr>\<rparr>"

definition ex_db_fail :: db_reply where
  "ex_db_fail = ex_db\<lparr>row_events := [Inr [PgText ''a'', PgInt 1], Inl ''unexpected EOF'']\<rparr>"

definition ex_env_fail :: run_env where
  "ex_env_fail = ex_env\<lparr>database := ex_db_fail, temp := Inr ''456''\<rparr>"

definition ex_world_file :: world where
  "ex_world_file = \<lparr>heap = [ex_entry_file], cache = [''/x'' \<mapsto> 0],
                    files = [''/tmp/ellycache123'' \<mapsto> Sealed ''[]'']\<rparr>"

text \<open>
  The run of the example with another temporary name; with no next activation in the
  cron entry; and with a next activation five seconds before the clock reading.
\<close>

definition ex_env_next :: run_env where
  "ex_env_next = ex_env\<lparr>temp := Inr ''456''\<rparr>"

definition ex_env_no_next :: run_env where
  "ex_env_no_next = ex_env\<lparr>entry_next := zero_time\<rparr>"

definition ex_env_late :: run_env where
  "ex_env_late = ex_env\<lparr>entry_next := 1731561595123460000\<rparr>"

text \<open>
  Two database answers with the column name \<^verbatim>\<open>a\<close> twice, as
  \<^verbatim>\<open>SELECT 'x' AS a, 'z' AS a\<close> gives it; their single rows differ in one byte.
\<close>

definition ex_db_dup_x :: db_reply where
  "ex_db_dup_x = \<lparr>query_err = None, field_names = [''a'', ''a''],
                  row_events = [Inr [PgText ''x'', PgText ''z'']], rows_err = None\<rparr>"

definition ex_db_dup_y :: db_reply where
  "ex_db_dup_y = \<lparr>query_err = None, field_names = [''a'', ''a''],
                  row_events = [Inr [PgText ''y'', PgText ''z'']], rows_err = None\<rparr>"

section \<open>Properties\<close>

subsection \<open>Serving leaves the state alone\<close>

lemma httpHandler_state: "fst (httpHandler st r) = st"
  by (simp add: httpHandler_def Let_def split: option.splits blob.splits)

lemma serve_all_eq: "serve_all st rs = (st, map (\<lambda>r. snd (httpHandler st r)) rs)"
proof (induction rs)
  case Nil
  show ?case by simp
next
  case (Cons r rs)
  obtain resp where resp: "httpHandler st r = (st, resp)"
    using httpHandler_state [of st r] by (cases "httpHandler st r") simp
  with Cons show ?case by simp
qed

subsection \<open>Conditional requests\<close>

text \<open>
  C5. A request for a path with an entry whose \<^verbatim>\<open>If-None-Match\<close> equals the entry's
  \<^verbatim>\<open>ETag\<close> is answered with status 304, the headers \<^verbatim>\<open>Etag\<close>, \<^verbatim>\<open>Last-Modified\<close> and
  \<^verbatim>\<open>Cache-Control\<close> of the entry and nothing else, and an empty body; the state is
  unchanged, and the request repeated \<open>n\<close> times gets the same response \<open>n\<close> times.
\<close>

theorem not_modified_on_match:
  assumes "entry_of st (url_path r) = Some e"
    and "if_none_match r = ETag e"
  shows "httpHandler st r =
           (st, \<lparr>status = 304,
                 headers = [''Etag'' \<mapsto> ETag e, ''Last-Modified'' \<mapsto> QueriedAt e,
                            ''Cache-Control'' \<mapsto> CacheControl e],
                 body = []\<rparr>)
         \<and> serve_all st (replicate n r) =
           (st, replicate n
                 \<lparr>status = 304,
                  headers = [''Etag'' \<mapsto> ETag e, ''Last-Modified'' \<mapsto> QueriedAt e,
                             ''Cache-Control'' \<mapsto> CacheControl e],
                  body = []\<rparr>)"
proof -
  from assms have one: "httpHandler st r =
      (st, \<lparr>status = 304,
            headers = [''Etag'' \<mapsto> ETag e, ''Last-Modified'' \<mapsto> QueriedAt e,
                       ''Cache-Control'' \<mapsto> CacheControl e],
            body = []\<rparr>)"
    by (auto simp: httpHandler_def entry_of_def sethdr_def Let_def split: option.splits)
  then show ?thesis
    by (simp add: serve_all_eq map_replicate_const)
qed

theorem not_modified_on_match_witness:
  "entry_of ex_world (url_path ex_req_match) = Some ex_entry
   \<and> if_none_match ex_req_match = ETag ex_entry
   \<and> httpHandler ex_world ex_req_match =
         (ex_world, \<lparr>status = 304,
                      headers = [''Etag'' \<mapsto> ETag ex_entry,
                                 ''Last-Modified'' \<mapsto> QueriedAt ex_entry,
                                 ''Cache-Control'' \<mapsto> CacheControl ex_entry],
                      body = []\<rparr>)
   \<and> serve_all ex_world (replicate 3 ex_req_match) =
         (ex_world, replicate 3
                      \<lparr>status = 304,
                       headers = [''Etag'' \<mapsto> ETag ex_entry,
                                  ''Last-Modified'' \<mapsto> QueriedAt ex_entry,
                                  ''Cache-Control'' \<mapsto> CacheControl ex_entry],
                       body = []\<rparr>)"
proof -
  have h1: "entry_of ex_world (url_path ex_req_match) = Some ex_entry"
    by (simp add: entry_of_def ex_world_def ex_req_match_def)
  have h2: "if_none_match ex_req_match = ETag ex_entry"
    by (simp add: ex_req_match_def)
  from not_modified_on_match [OF h1 h2, of 3] h1 h2 show ?thesis
    by simp
qed

subsection \<open>Failure responses\<close>

lemma sublist_middle:
  assumes "sublist (xs @ ys @ zs) bs"
  shows "sublist ys bs"
proof -
  from assms obtain ps ss where "bs = ps @ (xs @ ys @ zs) @ ss"
    by (auto simp: sublist_def)
  then have "bs = (ps @ xs) @ ys @ (zs @ ss)"
    by simp
  then show ?thesis
    unfolding sublist_def by blast
qed

lemma no_temp_name_in_500_body:
  "\<not> sublist (dir @ ''ellycache'' @ rnd) (''Internal Server Error'' @ [newline])"
proof
  assume "sublist (dir @ ''ellycache'' @ rnd) (''Internal Server Error'' @ [newline])"
  then have "sublist ''ellycache'' (''Internal Server Error'' @ [newline])"
    by (rule sublist_middle)
  moreover have "\<not> sublist ''ellycache'' (''Internal Server Error'' @ [newline])"
    by code_simp
  ultimately show False
    by contradiction
qed

text \<open>
  C9. A request for a path without an entry is answered 404 with
  \<^verbatim>\<open>Cache-Control: no-cache, no-store\<close>. A request that reaches the backing file of an
  entry (the entry is file-backed and \<^verbatim>\<open>If-None-Match\<close> does not equal its \<^verbatim>\<open>ETag\<close>) and
  finds the file missing or not decryptable is answered 500 with the same
  \<^verbatim>\<open>Cache-Control\<close>. Both bodies are constants of \<^verbatim>\<open>net/http\<close>: the handler reads no SQL,
  and no name \<^verbatim>\<open>os.CreateTemp\<close> gives a file occurs in the body.
\<close>

theorem failure_responses:
  "(entry_of st (url_path r) = None \<longrightarrow>
      snd (httpHandler st r) =
        \<lparr>status = 404,
         headers = [''Cache-Control'' \<mapsto> ''no-cache, no-store'',
                    ''Content-Type'' \<mapsto> ''text/plain; charset=utf-8'',
                    ''X-Content-Type-Options'' \<mapsto> ''nosniff''],
         body = ''404 page not found'' @ [newline]\<rparr>)
   \<and> (entry_of st (url_path r) = Some e \<and> if_none_match r \<noteq> ETag e \<and> File e \<noteq> []
        \<and> (files st (File e) = None \<or> files st (File e) = Some (Garbage g)) \<longrightarrow>
      snd (httpHandler st r) =
        \<lparr>status = 500,
         headers = [''Cache-Control'' \<mapsto> ''no-cache, no-store'',
                    ''Content-Type'' \<mapsto> ''text/plain; charset=utf-8'',
                    ''X-Content-Type-Options'' \<mapsto> ''nosniff''],
         body = ''Internal Server Error'' @ [newline]\<rparr>
      \<and> \<not> sublist (dir @ ''ellycache'' @ rnd) (body (snd (httpHandler st r))))"
proof (intro conjI impI)
  assume "entry_of st (url_path r) = None"
  then show "snd (httpHandler st r) =
        \<lparr>status = 404,
         headers = [''Cache-Control'' \<mapsto> ''no-cache, no-store'',
                    ''Content-Type'' \<mapsto> ''text/plain; charset=utf-8'',
                    ''X-Content-Type-Options'' \<mapsto> ''nosniff''],
         body = ''404 page not found'' @ [newline]\<rparr>"
    by (simp add: httpHandler_def entry_of_def http_Error_def split: option.splits)
next
  assume a: "entry_of st (url_path r) = Some e \<and> if_none_match r \<noteq> ETag e \<and> File e \<noteq> []
        \<and> (files st (File e) = None \<or> files st (File e) = Some (Garbage g))"
  then show r500: "snd (httpHandler st r) =
        \<lparr>status = 500,
         headers = [''Cache-Control'' \<mapsto> ''no-cache, no-store'',
                    ''Content-Type'' \<mapsto> ''text/plain; charset=utf-8'',
                    ''X-Content-Type-Options'' \<mapsto> ''nosniff''],
         body = ''Internal Server Error'' @ [newline]\<rparr>"
    by (auto simp: httpHandler_def entry_of_def http_Error_def Let_def split: option.splits)
  show "\<not> sublist (dir @ ''ellycache'' @ rnd) (body (snd (httpHandler st r)))"
    using no_temp_name_in_500_body [of dir rnd] by (simp add: r500)
qed

theorem failure_responses_witness:
  "entry_of ex_world_lost (url_path ex_req_other) = None
   \<and> status (snd (httpHandler ex_world_lost ex_req_other)) = 404
   \<and> headers (snd (httpHandler ex_world_lost ex_req_other)) ''Cache-Control''
       = Some ''no-cache, no-store''
   \<and> entry_of ex_world_lost (url_path ex_req) = Some ex_entry_file
   \<and> if_none_match ex_req \<noteq> ETag ex_entry_file
   \<and> File ex_entry_file \<noteq> []
   \<and> files ex_world_lost (File ex_entry_file) = None
   \<and> status (snd (httpHandler ex_world_lost ex_req)) = 500
   \<and> headers (snd (httpHandler ex_world_lost ex_req)) ''Cache-Control''
       = Some ''no-cache, no-store''
   \<and> body (snd (httpHandler ex_world_lost ex_req)) = ''Internal Server Error'' @ [newline]"
proof -
  have h1: "entry_of ex_world_lost (url_path ex_req_other) = None"
    by (simp add: entry_of_def ex_world_lost_def ex_req_other_def)
  have h2: "entry_of ex_world_lost (url_path ex_req) = Some ex_entry_file"
    by (simp add: entry_of_def ex_world_lost_def ex_req_def)
  have h3: "if_none_match ex_req \<noteq> ETag ex_entry_file"
    by (simp add: ex_req_def ex_entry_file_def ex_entry_def)
  have h4: "File ex_entry_file \<noteq> []"
    by (simp add: ex_entry_file_def)
  have h5: "files ex_world_lost (File ex_entry_file) = None"
    by (simp add: ex_world_lost_def)
  from failure_responses [of ex_world_lost ex_req_other ex_entry_file "[]" "[]" "[]"] h1
  have c1: "snd (httpHandler ex_world_lost ex_req_other) =
        \<lparr>status = 404,
         headers = [''Cache-Control'' \<mapsto> ''no-cache, no-store'',
                    ''Content-Type'' \<mapsto> ''text/plain; charset=utf-8'',
                    ''X-Content-Type-Options'' \<mapsto> ''nosniff''],
         body = ''404 page not found'' @ [newline]\<rparr>"
    by blast
  from failure_responses [of ex_world_lost ex_req ex_entry_file "[]" "[]" "[]"] h2 h3 h4 h5
  have c2: "snd (httpHandler ex_world_lost ex_req) =
        \<lparr>status = 500,
         headers = [''Cache-Control'' \<mapsto> ''no-cache, no-store'',
                    ''Content-Type'' \<mapsto> ''text/plain; charset=utf-8'',
                    ''X-Content-Type-Options'' \<mapsto> ''nosniff''],
         body = ''Internal Server Error'' @ [newline]\<rparr>"
    by blast
  show ?thesis
    using h1 h2 h3 h4 h5 by (simp add: c1 c2)
qed

subsection \<open>The row format\<close>


lemma query_example:
  \<open>query ex_cfg ex_db [] =
     (''[\<newline>  {"col1":"a","col2":1}\<newline>]\<newline>'', Inr 0x4598223d08c4dd54)\<close>
  by code_simp

lemma fill_map_updates:
  "i + length vs \<le> length cols \<Longrightarrow>
     fill_map cols i vs m = Inr (AList.updates (drop i cols) vs m)"
proof (induction vs arbitrary: i m)
  case Nil
  show ?case by simp
next
  case (Cons v vs)
  then have i: "i < length cols"
    by simp
  then have d: "drop i cols = cols ! i # drop (Suc i) cols"
    by (simp add: Cons_nth_drop_Suc)
  from Cons.prems have "Suc i + length vs \<le> length cols"
    by simp
  from Cons.IH [OF this] i show ?case
    by (simp add: d)
qed

lemma object_row:
  assumes "rowformat \<noteq> ''array''" and "length vs = length cols"
  shows "make_row rowformat cols vs = Inr (RowObject (AList.updates cols vs []))"
  using assms fill_map_updates [of 0 vs cols "[]"] by (simp add: make_row_def)

lemma object_row_keys:
  assumes "length vs = length cols"
  shows "map fst (sort_key fst (AList.updates cols vs [])) = sorted_list_of_set (set cols)"
proof -
  let ?m = "AList.updates cols vs []"
  have dm: "distinct (map fst ?m)"
    by (rule distinct_updates) simp
  have "dom (map_of ?m) = set cols"
    using assms by (simp add: updates_conv' dom_map_upds)
  then have sm: "set (map fst ?m) = set cols"
    by (simp add: dom_map_of_conv_image_fst)
  have "distinct (map fst (sort_key fst ?m))"
    using dm by (simp add: distinct_map)
  moreover have "sorted (map fst (sort_key fst ?m))"
    by simp
  moreover have "set (map fst (sort_key fst ?m)) = set (sorted_list_of_set (set cols))"
    using sm by simp
  ultimately show ?thesis
    by (intro sorted_distinct_set_unique) simp_all
qed

lemma ex_sorted_columns: "sorted_list_of_set (set [''col1'', ''col2'']) = [''col1'', ''col2'']"
  by code_simp





subsection \<open>What a run does to the state\<close>

lemma makeResult_success:
  assumes q: "query e (database env) [] = (written, Inr h)"
    and t: "FileBacked e \<longrightarrow> CreateTemp env st = Inr name"
  shows "makeResult e env st =
     (st\<lparr>heap := heap st @ [new_result (etag_of h) (if FileBacked e then [] else written)
                               (if FileBacked e then name else [])],
         files := (if FileBacked e then (files st)(name \<mapsto> Sealed written) else files st)\<rparr>,
      Inr (length (heap st)))"
  using t by (cases "FileBacked e") (simp_all add: makeResult_def alloc_def q)

lemma Job_Run_success:
  assumes q: "query (endpoint j) (database env) [] = (written, Inr h)"
    and t: "FileBacked (endpoint j) \<longrightarrow> CreateTemp env st = Inr name"
  shows "\<exists>st'. Job_Run j env st = Some st'
      \<and> heap st' = heap st @ [published_entry j env h written name]
      \<and> cache st' = (cache st)(Path (endpoint j) \<mapsto> length (heap st))
      \<and> entry_of st' (Path (endpoint j)) = Some (published_entry j env h written name)"
  unfolding Job_Run_def makeResult_success [OF q t]
  by (simp add: Let_def cleanOld_def entry_of_def published_entry_def new_result_def
      split: option.split)

lemma makeResult_failure:
  assumes "snd (makeResult e env st) = Inl f"
  shows "heap (fst (makeResult e env st)) = heap st \<and> cache (fst (makeResult e env st)) = cache st"
  using assms
  by (auto simp: makeResult_def alloc_def split: if_splits sum.splits prod.splits)

lemma makeResult_query_fault:
  assumes "snd (query e (database env) []) = Inl f"
    and "FileBacked e \<longrightarrow> (\<exists>name. CreateTemp env st = Inr name)"
  shows "snd (makeResult e env st) = Inl f"
  using assms by (auto simp: makeResult_def split: prod.splits sum.splits)

lemma Job_Run_failure:
  assumes "snd (makeResult (endpoint j) env st) = Inl (Error msg)"
  shows "\<exists>st'. Job_Run j env st = Some st'
      \<and> heap st' = heap st
      \<and> cache st' = (cache st)(Path (endpoint j) := None)
      \<and> (\<forall>old. entry_of st (Path (endpoint j)) = Some old \<and> File old \<noteq> []
            \<longrightarrow> files st' (File old) = None)"
proof -
  obtain st1 where m: "makeResult (endpoint j) env st = (st1, Inl (Error msg))"
    using assms by (cases "makeResult (endpoint j) env st") simp
  with makeResult_failure [OF assms] have hc: "heap st1 = heap st" "cache st1 = cache st"
    by simp_all
  show ?thesis
  proof (cases "cache st (Path (endpoint j))")
    case None
    then show ?thesis
      by (simp add: Job_Run_def m hc entry_of_def fun_upd_idem)
  next
    case (Some old)
    then show ?thesis
      by (simp add: Job_Run_def m hc entry_of_def cleanOld_def)
  qed
qed

lemma not_found_if_absent:
  "cache st k = None \<Longrightarrow> httpHandler st \<lparr>url_path = k, if_none_match = v\<rparr> = (st, not_found)"
  by (simp add: httpHandler_def not_found_def)

lemma ex_fail_makeResult:
  "snd (makeResult (endpoint ex_job_file) ex_env_fail ex_world_file)
     = Inl (Error ''query read failed: unexpected EOF'')"
  by code_simp

subsection \<open>A failed refresh\<close>

text \<open>
  C1. When \<^verbatim>\<open>makeResult\<close> returns an error (the error of \<^verbatim>\<open>query\<close> for a failed query, row
  read or row encoding, by \<open>makeResult_query_fault\<close>, or the failure to create the
  temporary file), \<^verbatim>\<open>Job.Run\<close> ends with no entry for the endpoint's path, whether or not
  there was one before; the file of the entry that was there, if it had one, is removed;
  and every following sequence of requests for the path, whatever their
  \<^verbatim>\<open>If-None-Match\<close>, is answered 404 and leaves the state as it is.
\<close>

theorem failed_refresh_removes_entry:
  assumes "snd (makeResult (endpoint j) env st) = Inl (Error msg)"
  shows "\<exists>st'. Job_Run j env st = Some st'
      \<and> entry_of st' (Path (endpoint j)) = None
      \<and> (\<forall>old. entry_of st (Path (endpoint j)) = Some old \<and> File old \<noteq> []
            \<longrightarrow> files st' (File old) = None)
      \<and> (\<forall>vs. serve_all st' (map (\<lambda>v. \<lparr>url_path = Path (endpoint j), if_none_match = v\<rparr>) vs)
              = (st', replicate (length vs) not_found))
      \<and> status not_found = 404"
proof -
  from Job_Run_failure [OF assms] obtain st' where run: "Job_Run j env st = Some st'"
    and c: "cache st' = (cache st)(Path (endpoint j) := None)"
    and f: "\<forall>old. entry_of st (Path (endpoint j)) = Some old \<and> File old \<noteq> []
            \<longrightarrow> files st' (File old) = None"
    by blast
  from c have absent: "cache st' (Path (endpoint j)) = None"
    by simp
  have "serve_all st' (map (\<lambda>v. \<lparr>url_path = Path (endpoint j), if_none_match = v\<rparr>) vs)
          = (st', replicate (length vs) not_found)" for vs
    by (simp add: serve_all_eq not_found_if_absent [OF absent] map_replicate_const comp_def)
  with run absent f show ?thesis
    by (simp add: entry_of_def not_found_def http_Error_def)
qed

theorem failed_refresh_removes_entry_witness:
  "snd (makeResult (endpoint ex_job_file) ex_env_fail ex_world_file)
     = Inl (Error ''query read failed: unexpected EOF'')
   \<and> entry_of ex_world_file (Path (endpoint ex_job_file)) = Some ex_entry_file
   \<and> File ex_entry_file = ''/tmp/ellycache123''
   \<and> files ex_world_file ''/tmp/ellycache123'' = Some (Sealed ''[]'')
   \<and> (\<exists>st'. Job_Run ex_job_file ex_env_fail ex_world_file = Some st'
         \<and> entry_of st' ''/x'' = None
         \<and> files st' ''/tmp/ellycache123'' = None
         \<and> serve_all st' [\<lparr>url_path = ''/x'', if_none_match = []\<rparr>,
                           \<lparr>url_path = ''/x'', if_none_match = ETag ex_entry_file\<rparr>]
             = (st', [not_found, not_found]))
   \<and> status not_found = 404"
proof -
  have p: "Path (endpoint ex_job_file) = ''/x''"
    by (simp add: ex_job_file_def ex_cfg_def)
  have e: "entry_of ex_world_file (Path (endpoint ex_job_file)) = Some ex_entry_file"
    by (simp add: p entry_of_def ex_world_file_def)
  have f: "File ex_entry_file = ''/tmp/ellycache123''"
    by (simp add: ex_entry_file_def)
  have g: "files ex_world_file ''/tmp/ellycache123'' = Some (Sealed ''[]'')"
    by (simp add: ex_world_file_def)
  from failed_refresh_removes_entry [OF ex_fail_makeResult]
  obtain st' where run: "Job_Run ex_job_file ex_env_fail ex_world_file = Some st'"
    and a: "entry_of st' (Path (endpoint ex_job_file)) = None"
    and r: "\<forall>old. entry_of ex_world_file (Path (endpoint ex_job_file)) = Some old \<and> File old \<noteq> []
            \<longrightarrow> files st' (File old) = None"
    and s: "\<forall>vs. serve_all st'
               (map (\<lambda>v. \<lparr>url_path = Path (endpoint ex_job_file), if_none_match = v\<rparr>) vs)
              = (st', replicate (length vs) not_found)"
    and n: "status not_found = 404"
    by blast
  from r e f have gone: "files st' ''/tmp/ellycache123'' = None"
    by auto
  from s [rule_format, of "[[], ETag ex_entry_file]"]
  have served: "serve_all st' [\<lparr>url_path = ''/x'', if_none_match = []\<rparr>,
                           \<lparr>url_path = ''/x'', if_none_match = ETag ex_entry_file\<rparr>]
             = (st', [not_found, not_found])"
    by (simp add: p numeral_2_eq_2)
  from a have a': "entry_of st' ''/x'' = None"
    by (simp add: p)
  from run a' gone served
  have "\<exists>st'. Job_Run ex_job_file ex_env_fail ex_world_file = Some st'
         \<and> entry_of st' ''/x'' = None
         \<and> files st' ''/tmp/ellycache123'' = None
         \<and> serve_all st' [\<lparr>url_path = ''/x'', if_none_match = []\<rparr>,
                           \<lparr>url_path = ''/x'', if_none_match = ETag ex_entry_file\<rparr>]
             = (st', [not_found, not_found])"
    by blast
  with ex_fail_makeResult e f g n show ?thesis
    by blast
qed

text \<open>
  C2. A file-backed refresh whose query fails after the temporary file was created: the
  run at the example input, where reading the second row fails, publishes nothing and
  removes the file of the old entry, and the temporary file it created stays, holding
  the encryption of the partial output.
\<close>

theorem temp_file_left_by_failed_refresh:
  \<open>entry_after (Job_Run ex_job_file ex_env_fail ex_world_file) ''/x'' = None
   \<and> file_after (Job_Run ex_job_file ex_env_fail ex_world_file) ''/tmp/ellycache123'' = None
   \<and> file_after (Job_Run ex_job_file ex_env_fail ex_world_file) ''/tmp/ellycache456''
       = Some (Sealed ''[\<newline>  {"col1":"a","col2":1}'')\<close>
  by code_simp

subsection \<open>Entries are built once\<close>

lemma query_success_nonempty:
  assumes "query e db w = (written, Inr h)"
  shows "written \<noteq> []"
  using assms
  by (auto simp: query_def Let_def split: option.splits prod.splits sum.splits)

lemma CreateTemp_name:
  assumes "CreateTemp env st = Inr name"
  shows "name = temp_dir env @ ''ellycache'' @ (case temp env of Inr rnd \<Rightarrow> rnd | Inl m \<Rightarrow> []) \<and> files st name = None"
  using assms
  by (auto simp: CreateTemp_def Let_def split: sum.splits if_splits)

lemma makeResult_Inr_query:
  assumes "snd (makeResult e env st) = Inr p"
  shows "\<exists>written h. query e (database env) [] = (written, Inr h)
           \<and> (FileBacked e \<longrightarrow> (\<exists>name. CreateTemp env st = Inr name))"
  using assms
  by (auto simp: makeResult_def alloc_def split: if_splits sum.splits prod.splits)

lemma Job_Run_heap_prefix:
  assumes "Job_Run j env st = Some st'"
  shows "take (length (heap st)) (heap st') = heap st"
proof (cases "snd (makeResult (endpoint j) env st)")
  case (Inl f)
  show ?thesis
  proof (cases f)
    case (Error msg)
    with Inl Job_Run_failure [of j env st msg] assms show ?thesis
      by auto
  next
    case (Panic msg)
    with Inl assms show ?thesis
      by (cases "makeResult (endpoint j) env st") (simp add: Job_Run_def)
  qed
next
  case (Inr p)
  from makeResult_Inr_query [OF Inr] obtain written h name
    where q: "query (endpoint j) (database env) [] = (written, Inr h)"
      and t: "FileBacked (endpoint j) \<longrightarrow> CreateTemp env st = Inr name"
    by blast
  from Job_Run_success [OF q t] assms show ?thesis
    by auto
qed

text \<open>
  C4. A run in which \<^verbatim>\<open>makeResult\<close> succeeds appends one new object to the heap and maps
  the path to it; the object has a file name and no bytes when the endpoint is
  file-backed, and bytes and no file name otherwise. No run changes an object that was
  there before it (the old part of the heap is the same after any run that returns), and
  the handler changes nothing at all: a path gets another entry only by being mapped to a
  new object.
\<close>

theorem entries_one_payload_never_mutated:
  "(snd (makeResult (endpoint j) env st) = Inr p \<longrightarrow>
      (\<exists>st1 r. Job_Run j env st = Some st1
          \<and> heap st1 = heap st @ [r]
          \<and> cache st1 = (cache st)(Path (endpoint j) \<mapsto> length (heap st))
          \<and> entry_of st1 (Path (endpoint j)) = Some r
          \<and> (if FileBacked (endpoint j) then File r \<noteq> [] \<and> Result r = []
              else File r = [] \<and> Result r \<noteq> [])))
   \<and> (Job_Run j env st = Some st' \<longrightarrow> take (length (heap st)) (heap st') = heap st)
   \<and> fst (httpHandler st rq) = st"
proof (intro conjI impI)
  assume ok: "snd (makeResult (endpoint j) env st) = Inr p"
  from makeResult_Inr_query [OF ok] obtain written h name
    where q: "query (endpoint j) (database env) [] = (written, Inr h)"
      and t: "FileBacked (endpoint j) \<longrightarrow> CreateTemp env st = Inr name"
    by blast
  from Job_Run_success [OF q t] obtain st1
    where run: "Job_Run j env st = Some st1"
      and hp: "heap st1 = heap st @ [published_entry j env h written name]"
      and ca: "cache st1 = (cache st)(Path (endpoint j) \<mapsto> length (heap st))"
      and en: "entry_of st1 (Path (endpoint j)) = Some (published_entry j env h written name)"
    by blast
  have "if FileBacked (endpoint j)
        then File (published_entry j env h written name) \<noteq> []
             \<and> Result (published_entry j env h written name) = []
        else File (published_entry j env h written name) = []
             \<and> Result (published_entry j env h written name) \<noteq> []"
    using t query_success_nonempty [OF q] CreateTemp_name [of env st name]
    by (auto simp: published_entry_def)
  with run hp ca en
  show "\<exists>st1 r. Job_Run j env st = Some st1
          \<and> heap st1 = heap st @ [r]
          \<and> cache st1 = (cache st)(Path (endpoint j) \<mapsto> length (heap st))
          \<and> entry_of st1 (Path (endpoint j)) = Some r
          \<and> (if FileBacked (endpoint j) then File r \<noteq> [] \<and> Result r = []
              else File r = [] \<and> Result r \<noteq> [])"
    by blast
next
  assume "Job_Run j env st = Some st'"
  then show "take (length (heap st)) (heap st') = heap st"
    by (rule Job_Run_heap_prefix)
next
  show "fst (httpHandler st rq) = st"
    by (rule httpHandler_state)
qed


lemma ex_replace_makeResult:
  "snd (makeResult (endpoint ex_job_file) ex_env_next ex_world_file) = Inr 1"
  by code_simp

theorem entries_one_payload_never_mutated_witness:
  "snd (makeResult (endpoint ex_job_file) ex_env_next ex_world_file) = Inr 1
   \<and> (\<exists>st1 r. Job_Run ex_job_file ex_env_next ex_world_file = Some st1
         \<and> heap st1 = [ex_entry_file, r]
         \<and> cache st1 ''/x'' = Some 1
         \<and> File r \<noteq> [] \<and> Result r = []
         \<and> take 1 (heap st1) = [ex_entry_file])
   \<and> fst (httpHandler ex_world_file ex_req) = ex_world_file"
proof -
  have fb: "FileBacked (endpoint ex_job_file)"
    by (simp add: ex_job_file_def)
  have pa: "Path (endpoint ex_job_file) = ''/x''"
    by (simp add: ex_job_file_def ex_cfg_def)
  have hp0: "heap ex_world_file = [ex_entry_file]"
    by (simp add: ex_world_file_def)
  from entries_one_payload_never_mutated [of ex_job_file ex_env_next ex_world_file 1]
    ex_replace_makeResult
  obtain st1 r where run: "Job_Run ex_job_file ex_env_next ex_world_file = Some st1"
    and hp: "heap st1 = heap ex_world_file @ [r]"
    and ca: "cache st1 = (cache ex_world_file)(Path (endpoint ex_job_file) \<mapsto> length (heap ex_world_file))"
    and one: "if FileBacked (endpoint ex_job_file) then File r \<noteq> [] \<and> Result r = []
              else File r = [] \<and> Result r \<noteq> []"
    by blast
  from entries_one_payload_never_mutated [of ex_job_file ex_env_next ex_world_file 1 st1 ex_req] run
  have pre: "take (length (heap ex_world_file)) (heap st1) = heap ex_world_file"
    and ro: "fst (httpHandler ex_world_file ex_req) = ex_world_file"
    by blast+
  from hp have a: "heap st1 = [ex_entry_file, r]"
    by (simp add: hp0)
  from ca have b: "cache st1 ''/x'' = Some 1"
    by (simp add: pa hp0)
  from one fb have c: "File r \<noteq> [] \<and> Result r = []"
    by simp
  from pre have d: "take 1 (heap st1) = [ex_entry_file]"
    by (simp add: hp0)
  from run a b c d have "\<exists>st1 r. Job_Run ex_job_file ex_env_next ex_world_file = Some st1
         \<and> heap st1 = [ex_entry_file, r]
         \<and> cache st1 ''/x'' = Some 1
         \<and> File r \<noteq> [] \<and> Result r = []
         \<and> take 1 (heap st1) = [ex_entry_file]"
    by blast
  with ex_replace_makeResult ro show ?thesis
    by blast
qed

subsection \<open>The response with the body\<close>

lemma Job_Run_success_files:
  assumes q: "query (endpoint j) (database env) [] = (written, Inr h)"
    and t: "CreateTemp env st = Inr name"
    and fb: "FileBacked (endpoint j)"
    and old: "\<forall>p. cache st (Path (endpoint j)) = Some p
                \<longrightarrow> p < length (heap st) \<and> File (heap st ! p) \<noteq> name"
    and run: "Job_Run j env st = Some st'"
  shows "files st' name = Some (Sealed written)"
proof -
  have t': "FileBacked (endpoint j) \<longrightarrow> CreateTemp env st = Inr name"
    using t by simp
  show ?thesis
    using run old fb unfolding Job_Run_def makeResult_success [OF q t']
    by (auto simp: Let_def cleanOld_def nth_append split: option.splits)
qed

lemma handler_ok:
  assumes "entry_of st (url_path rq) = Some e"
    and "if_none_match rq \<noteq> ETag e"
    and "if File e = [] then payload = Result e else files st (File e) = Some (Sealed payload)"
  shows "httpHandler st rq =
           (st, \<lparr>status = 200,
                 headers = [''Content-Type'' \<mapsto> ''application/json'', ''Etag'' \<mapsto> ETag e,
                            ''Last-Modified'' \<mapsto> QueriedAt e,
                            ''Cache-Control'' \<mapsto> CacheControl e],
                 body = payload\<rparr>)"
  using assms
  by (auto simp: httpHandler_def entry_of_def sethdr_def Let_def split: option.splits if_splits)

text \<open>
  C6. A successful run publishes an entry whose \<^verbatim>\<open>ETag\<close> is \<^verbatim>\<open>W/"..."\<close> around the
  hexadecimal hash, whose \<^verbatim>\<open>QueriedAt\<close> is the HTTP date of the clock reading after the query,
  cut to whole seconds, and whose \<^verbatim>\<open>CacheControl\<close> is \<^verbatim>\<open>max-age=N, immutable\<close> with \<open>N\<close> the
  number \<^verbatim>\<open>Job.Run\<close> computes; its payload is what \<^verbatim>\<open>query\<close> wrote, in memory or sealed
  in the new file (which is there after the run unless the replaced entry named the same
  file). A request for a path with an entry whose \<^verbatim>\<open>If-None-Match\<close> differs from the
  \<^verbatim>\<open>ETag\<close> and whose payload is in memory, or in a file that decrypts, is answered 200 with
  \<^verbatim>\<open>Content-Type: application/json\<close>, these three values as \<^verbatim>\<open>Etag\<close>, \<^verbatim>\<open>Last-Modified\<close>
  and \<^verbatim>\<open>Cache-Control\<close>, and the payload as body.
\<close>

theorem ok_response:
  "(query (endpoint j) (database env) [] = (written, Inr h)
      \<and> (FileBacked (endpoint j) \<longrightarrow> CreateTemp env st = Inr name) \<longrightarrow>
      (\<exists>st1 e. Job_Run j env st = Some st1
          \<and> entry_of st1 (Path (endpoint j)) = Some e
          \<and> ETag e = ''W/'' @ [dquote] @ fmt_x h @ [dquote]
          \<and> QueriedAt e = http_date (now_queried env div 1000000000)
          \<and> CacheControl e
              = ''max-age='' @ fmt_d (freshness (entry_next env) (now_maxage env)) @ '', immutable''
          \<and> (if FileBacked (endpoint j)
              then File e = name \<and> name \<noteq> [] \<and> Result e = []
                   \<and> ((\<forall>p. cache st (Path (endpoint j)) = Some p
                          \<longrightarrow> p < length (heap st) \<and> File (heap st ! p) \<noteq> name)
                        \<longrightarrow> files st1 name = Some (Sealed written))
              else File e = [] \<and> Result e = written)))
   \<and> (entry_of st (url_path rq) = Some e0 \<and> if_none_match rq \<noteq> ETag e0
        \<and> (if File e0 = [] then payload = Result e0
            else files st (File e0) = Some (Sealed payload)) \<longrightarrow>
      httpHandler st rq =
        (st, \<lparr>status = 200,
              headers = [''Content-Type'' \<mapsto> ''application/json'', ''Etag'' \<mapsto> ETag e0,
                         ''Last-Modified'' \<mapsto> QueriedAt e0,
                         ''Cache-Control'' \<mapsto> CacheControl e0],
              body = payload\<rparr>))"
proof (intro conjI impI)
  assume a: "query (endpoint j) (database env) [] = (written, Inr h)
      \<and> (FileBacked (endpoint j) \<longrightarrow> CreateTemp env st = Inr name)"
  then have q: "query (endpoint j) (database env) [] = (written, Inr h)"
    and t: "FileBacked (endpoint j) \<longrightarrow> CreateTemp env st = Inr name"
    by simp_all
  from Job_Run_success [OF q t] obtain st1
    where run: "Job_Run j env st = Some st1"
      and en: "entry_of st1 (Path (endpoint j)) = Some (published_entry j env h written name)"
    by blast
  let ?e = "published_entry j env h written name"
  have f1: "ETag ?e = ''W/'' @ [dquote] @ fmt_x h @ [dquote]"
    by (simp add: published_entry_def etag_of_def)
  have f2: "QueriedAt ?e = http_date (now_queried env div 1000000000)"
    by (simp add: published_entry_def format_queried_at_def)
  have f3: "CacheControl ?e
              = ''max-age='' @ fmt_d (freshness (entry_next env) (now_maxage env)) @ '', immutable''"
    by (simp add: published_entry_def)
  have f4: "if FileBacked (endpoint j)
            then File ?e = name \<and> name \<noteq> [] \<and> Result ?e = []
                 \<and> ((\<forall>p. cache st (Path (endpoint j)) = Some p
                        \<longrightarrow> p < length (heap st) \<and> File (heap st ! p) \<noteq> name)
                      \<longrightarrow> files st1 name = Some (Sealed written))
            else File ?e = [] \<and> Result ?e = written"
  proof (cases "FileBacked (endpoint j)")
    case True
    with t have ct: "CreateTemp env st = Inr name"
      by simp
    from CreateTemp_name [OF ct] have "name \<noteq> []"
      by auto
    with True Job_Run_success_files [OF q ct True _ run] show ?thesis
      by (auto simp: published_entry_def)
  next
    case False
    then show ?thesis
      by (simp add: published_entry_def)
  qed
  from run en f1 f2 f3 f4
  show "\<exists>st1 e. Job_Run j env st = Some st1
          \<and> entry_of st1 (Path (endpoint j)) = Some e
          \<and> ETag e = ''W/'' @ [dquote] @ fmt_x h @ [dquote]
          \<and> QueriedAt e = http_date (now_queried env div 1000000000)
          \<and> CacheControl e
              = ''max-age='' @ fmt_d (freshness (entry_next env) (now_maxage env)) @ '', immutable''
          \<and> (if FileBacked (endpoint j)
              then File e = name \<and> name \<noteq> [] \<and> Result e = []
                   \<and> ((\<forall>p. cache st (Path (endpoint j)) = Some p
                          \<longrightarrow> p < length (heap st) \<and> File (heap st ! p) \<noteq> name)
                        \<longrightarrow> files st1 name = Some (Sealed written))
              else File e = [] \<and> Result e = written)"
    by blast
next
  assume "entry_of st (url_path rq) = Some e0 \<and> if_none_match rq \<noteq> ETag e0
        \<and> (if File e0 = [] then payload = Result e0
            else files st (File e0) = Some (Sealed payload))"
  then show "httpHandler st rq =
        (st, \<lparr>status = 200,
              headers = [''Content-Type'' \<mapsto> ''application/json'', ''Etag'' \<mapsto> ETag e0,
                         ''Last-Modified'' \<mapsto> QueriedAt e0,
                         ''Cache-Control'' \<mapsto> CacheControl e0],
              body = payload\<rparr>)"
    using handler_ok [of st rq e0 payload] by blast
qed


lemma ex_query_file:
  \<open>query (endpoint ex_job_file) (database ex_env_next) [] =
     (''[\<newline>  {"col1":"a","col2":1}\<newline>]\<newline>'', Inr 0x4598223d08c4dd54)\<close>
  by code_simp

lemma ex_CreateTemp: "CreateTemp ex_env_next ex_world_file = Inr ''/tmp/ellycache456''"
  by code_simp

lemma ex_published_fields:
  \<open>''W/'' @ [dquote] @ fmt_x 0x4598223d08c4dd54 @ [dquote] = ''W/"4598223d08c4dd54"''
   \<and> http_date (now_queried ex_env_next div 1000000000) = ''Thu, 14 Nov 2024 05:20:00 GMT''
   \<and> ''max-age='' @ fmt_d (freshness (entry_next ex_env_next) (now_maxage ex_env_next))
        @ '', immutable'' = ''max-age=299, immutable''\<close>
  by code_simp

theorem ok_response_witness:
  \<open>query (endpoint ex_job_file) (database ex_env_next) [] =
     (''[\<newline>  {"col1":"a","col2":1}\<newline>]\<newline>'', Inr 0x4598223d08c4dd54)
   \<and> FileBacked (endpoint ex_job_file)
   \<and> CreateTemp ex_env_next ex_world_file = Inr ''/tmp/ellycache456''
   \<and> if_none_match ex_req = []
   \<and> (\<exists>st1. Job_Run ex_job_file ex_env_next ex_world_file = Some st1
         \<and> httpHandler st1 ex_req =
             (st1, \<lparr>status = 200,
                    headers = [''Content-Type'' \<mapsto> ''application/json'',
                               ''Etag'' \<mapsto> ''W/"4598223d08c4dd54"'',
                               ''Last-Modified'' \<mapsto> ''Thu, 14 Nov 2024 05:20:00 GMT'',
                               ''Cache-Control'' \<mapsto> ''max-age=299, immutable''],
                    body = ''[\<newline>  {"col1":"a","col2":1}\<newline>]\<newline>''\<rparr>))\<close>
proof -
  have fb: "FileBacked (endpoint ex_job_file)"
    by (simp add: ex_job_file_def)
  have pa: "Path (endpoint ex_job_file) = ''/x''"
    by (simp add: ex_job_file_def ex_cfg_def)
  have rq: "url_path ex_req = ''/x''" "if_none_match ex_req = []"
    by (simp_all add: ex_req_def)
  have old: "\<forall>p. cache ex_world_file (Path (endpoint ex_job_file)) = Some p
               \<longrightarrow> p < length (heap ex_world_file)
                   \<and> File (heap ex_world_file ! p) \<noteq> ''/tmp/ellycache456''"
    by (simp add: pa ex_world_file_def ex_entry_file_def)
  from ok_response [where j = ex_job_file and env = ex_env_next and st = ex_world_file
      and name = "''/tmp/ellycache456''" and h = "0x4598223d08c4dd54"
      and written = \<open>''[\<newline>  {"col1":"a","col2":1}\<newline>]\<newline>''\<close>, THEN conjunct1]
    ex_query_file ex_CreateTemp
  have \<open>\<exists>st1 e. Job_Run ex_job_file ex_env_next ex_world_file = Some st1
          \<and> entry_of st1 (Path (endpoint ex_job_file)) = Some e
          \<and> ETag e = ''W/'' @ [dquote] @ fmt_x 0x4598223d08c4dd54 @ [dquote]
          \<and> QueriedAt e = http_date (now_queried ex_env_next div 1000000000)
          \<and> CacheControl e
              = ''max-age='' @ fmt_d (freshness (entry_next ex_env_next) (now_maxage ex_env_next))
                @ '', immutable''
          \<and> (if FileBacked (endpoint ex_job_file)
              then File e = ''/tmp/ellycache456'' \<and> ''/tmp/ellycache456'' \<noteq> [] \<and> Result e = []
                   \<and> ((\<forall>p. cache ex_world_file (Path (endpoint ex_job_file)) = Some p
                          \<longrightarrow> p < length (heap ex_world_file)
                              \<and> File (heap ex_world_file ! p) \<noteq> ''/tmp/ellycache456'')
                        \<longrightarrow> files st1 ''/tmp/ellycache456''
                              = Some (Sealed ''[\<newline>  {"col1":"a","col2":1}\<newline>]\<newline>''))
              else File e = [] \<and> Result e = ''[\<newline>  {"col1":"a","col2":1}\<newline>]\<newline>'')\<close>
    by blast
  with fb old obtain st1 e where run: "Job_Run ex_job_file ex_env_next ex_world_file = Some st1"
    and en: "entry_of st1 (Path (endpoint ex_job_file)) = Some e"
    and f1: "ETag e = ''W/'' @ [dquote] @ fmt_x 0x4598223d08c4dd54 @ [dquote]"
    and f2: "QueriedAt e = http_date (now_queried ex_env_next div 1000000000)"
    and f3: "CacheControl e
              = ''max-age='' @ fmt_d (freshness (entry_next ex_env_next) (now_maxage ex_env_next))
                @ '', immutable''"
    and f4: "File e = ''/tmp/ellycache456''"
    and f5: \<open>files st1 ''/tmp/ellycache456''
              = Some (Sealed ''[\<newline>  {"col1":"a","col2":1}\<newline>]\<newline>'')\<close>
    by (simp only: if_True) blast
  have nm: "if_none_match ex_req \<noteq> ETag e"
    by (simp add: rq f1)
  from ok_response [where st = st1 and rq = ex_req and ?e0.0 = e
      and payload = \<open>''[\<newline>  {"col1":"a","col2":1}\<newline>]\<newline>''\<close>] en nm f4 f5
  have \<open>httpHandler st1 ex_req =
        (st1, \<lparr>status = 200,
              headers = [''Content-Type'' \<mapsto> ''application/json'', ''Etag'' \<mapsto> ETag e,
                         ''Last-Modified'' \<mapsto> QueriedAt e,
                         ''Cache-Control'' \<mapsto> CacheControl e],
              body = ''[\<newline>  {"col1":"a","col2":1}\<newline>]\<newline>''\<rparr>)\<close>
    by (simp add: pa rq)
  then have \<open>httpHandler st1 ex_req =
             (st1, \<lparr>status = 200,
                    headers = [''Content-Type'' \<mapsto> ''application/json'',
                               ''Etag'' \<mapsto> ''W/"4598223d08c4dd54"'',
                               ''Last-Modified'' \<mapsto> ''Thu, 14 Nov 2024 05:20:00 GMT'',
                               ''Cache-Control'' \<mapsto> ''max-age=299, immutable''],
                    body = ''[\<newline>  {"col1":"a","col2":1}\<newline>]\<newline>''\<rparr>)\<close>
    using ex_published_fields by (simp only: f1 f2 f3)
  with run have \<open>\<exists>st1. Job_Run ex_job_file ex_env_next ex_world_file = Some st1
         \<and> httpHandler st1 ex_req =
             (st1, \<lparr>status = 200,
                    headers = [''Content-Type'' \<mapsto> ''application/json'',
                               ''Etag'' \<mapsto> ''W/"4598223d08c4dd54"'',
                               ''Last-Modified'' \<mapsto> ''Thu, 14 Nov 2024 05:20:00 GMT'',
                               ''Cache-Control'' \<mapsto> ''max-age=299, immutable''],
                    body = ''[\<newline>  {"col1":"a","col2":1}\<newline>]\<newline>''\<rparr>)\<close>
    by blast
  with ex_query_file fb ex_CreateTemp rq(2) show ?thesis
    by (intro conjI)
qed


subsection \<open>The freshness window\<close>

lemma bit_length_nonneg: "0 \<le> bit_length a"
proof (induction a rule: bit_length.induct)
  case (1 n)
  then show ?case
    by (subst bit_length.simps) auto
qed

lemma bit_length_le: "0 < a \<Longrightarrow> a < 2 ^ n \<Longrightarrow> bit_length a \<le> int n"
proof (induction n arbitrary: a)
  case 0
  then show ?case by simp
next
  case (Suc n)
  show ?case
  proof (cases "a div 2 = 0")
    case True
    then have "bit_length a = 1"
      using Suc.prems by (subst bit_length.simps) (simp add: bit_length.simps [of 0])
    then show ?thesis by simp
  next
    case False
    with Suc.prems have "0 < a div 2" "a div 2 < 2 ^ n"
      by auto
    then have "bit_length (a div 2) \<le> int n"
      by (rule Suc.IH)
    then show ?thesis
      using Suc.prems by (subst bit_length.simps) simp
  qed
qed

lemma bit_length_ge: "2 ^ n \<le> a \<Longrightarrow> int n + 1 \<le> bit_length a"
proof (induction n arbitrary: a)
  case 0
  then show ?case
    using bit_length_nonneg [of "a div 2"] by (subst bit_length.simps) simp
next
  case (Suc n)
  then have "2 ^ n \<le> a div 2"
    by simp
  then have "int n + 1 \<le> bit_length (a div 2)"
    by (rule Suc.IH)
  moreover have "0 < a"
    using Suc.prems by (smt (verit) zero_less_power)
  ultimately show ?case
    by (subst bit_length.simps) simp
qed

lemma floor_log2_le: "floor_log2 (a, b) \<le> bit_length a - bit_length b"
  by (simp add: floor_log2_def Let_def)

lemma float64_exact:
  assumes "\<bar>c\<bar> < 2 ^ 53"
  shows "\<exists>u. float64 (c * 2 ^ t, 2 ^ t) = (c * 2 ^ u, 2 ^ u)"
proof (cases "c = 0")
  case True
  then have "float64 (c * 2 ^ t, 2 ^ t) = (c * 2 ^ 0, 2 ^ 0)"
    by (simp add: float64_def)
  then show ?thesis ..
next
  case False
  define s where "s = floor_log2 (\<bar>c * 2 ^ t\<bar>, 2 ^ t) - 52"
  have pos: "0 < \<bar>c\<bar> * 2 ^ t"
    using False by simp
  have "\<bar>c\<bar> * 2 ^ t < 2 ^ (53 + t)"
    using assms by (simp add: power_add)
  with pos have "bit_length (\<bar>c\<bar> * 2 ^ t) \<le> int (53 + t)"
    by (rule bit_length_le)
  moreover have "int t + 1 \<le> bit_length (2 ^ t)"
    by (rule bit_length_ge) simp
  ultimately have "s \<le> 0"
    using floor_log2_le [of "\<bar>c\<bar> * 2 ^ t" "2 ^ t"] by (simp add: s_def abs_mult)
  show ?thesis
  proof (cases "s < 0")
    case True
    have n: "c * 2 ^ t * 2 ^ nat (- s) = (c * 2 ^ nat (- s)) * 2 ^ t"
      by simp
    have "float64 (c * 2 ^ t, 2 ^ t) = (c * 2 ^ nat (- s), 2 ^ nat (- s))"
      unfolding float64_def Let_def prod.case s_def [symmetric]
      using \<open>c \<noteq> 0\<close> True by (simp add: n)
    then show ?thesis ..
  next
    case False
    with \<open>s \<le> 0\<close> have "s = 0"
      by simp
    have "float64 (c * 2 ^ t, 2 ^ t) = (c * 2 ^ 0, 2 ^ 0)"
      unfolding float64_def Let_def prod.case s_def [symmetric]
      using \<open>c \<noteq> 0\<close> \<open>s = 0\<close> by simp
    then show ?thesis ..
  qed
qed

lemma tdiv_mult_pos:
  assumes "0 < b"
  shows "tdiv (k * b) b = k"
proof -
  from assms have "\<bar>k * b\<bar> div \<bar>b\<bar> = \<bar>k\<bar>"
    by (simp add: abs_mult)
  moreover from assms have "sgn (k * b) * sgn b = sgn k"
    by (simp add: sgn_mult)
  ultimately have "tdiv (k * b) b = sgn k * \<bar>k\<bar>"
    by (simp only: tdiv_def)
  then show ?thesis
    by (simp only: sgn_mult_abs)
qed

lemma go_int_Seconds_whole:
  assumes "\<bar>k\<bar> < 2 ^ 53"
  shows "go_int (Seconds (k * 1000000000)) = k"
proof -
  have d: "tdiv (k * 1000000000) 1000000000 = k"
    by (rule tdiv_mult_pos) simp
  then have r: "trem (k * 1000000000) 1000000000 = 0"
    by (simp add: trem_def)
  have z: "float64 (frac_div (float64 (0, 1)) 1000000000) = (0, 1)"
    by (simp add: float64_def frac_div_def)
  from float64_exact [OF assms, of 0] obtain u where u: "float64 (k, 1) = (k * 2 ^ u, 2 ^ u)"
    by auto
  from float64_exact [OF assms, of u] obtain v
    where v: "float64 (k * 2 ^ u, 2 ^ u) = (k * 2 ^ v, 2 ^ v)"
    by auto
  have "Seconds (k * 1000000000) = (k * 2 ^ v, 2 ^ v)"
    by (simp add: Seconds_def d r z u v frac_add_def)
  then show ?thesis
    by (simp add: go_int_def tdiv_mult_pos)
qed

lemma freshness_whole_seconds:
  assumes "\<bar>k\<bar> \<le> 9223372036"
  shows "freshness (now + k * 1000000000) now = k"
proof -
  from assms have "- 9223372036854775808 \<le> k * 1000000000"
    and "k * 1000000000 \<le> 9223372036854775807"
    by linarith+
  then have "time_Sub (now + k * 1000000000) now = k * 1000000000"
    by (simp add: time_Sub_def minDuration_def maxDuration_def)
  moreover from assms have "\<bar>k\<bar> < 2 ^ 53"
    by simp
  ultimately show ?thesis
    by (simp add: freshness_def go_int_Seconds_whole)
qed

lemma float64_sign:
  assumes "0 \<le> a" and "0 < b"
  shows "0 \<le> fst (float64 (a, b)) \<and> 0 < snd (float64 (a, b))"
proof -
  have "0 \<le> n div d" if "0 \<le> n" "0 < d" for n d :: int
    using that by (simp add: pos_imp_zdiv_nonneg_iff)
  then show ?thesis
    using assms by (auto simp: float64_def Let_def intro!: mult_nonneg_nonneg add_nonneg_nonneg)
qed

lemma freshness_nonneg:
  assumes "now \<le> nxt"
  shows "0 \<le> freshness nxt now"
proof -
  define d where "d = time_Sub nxt now"
  have d0: "0 \<le> d"
    using assms by (simp add: d_def time_Sub_def minDuration_def maxDuration_def)
  have q0: "0 \<le> tdiv d 1000000000"
    using d0 by (simp add: tdiv_def sgn_if)
  have r0: "0 \<le> trem d 1000000000"
  proof -
    have "trem d 1000000000 = d mod 1000000000"
      using d0 by (simp add: trem_def tdiv_def sgn_if minus_mult_div_eq_mod)
    then show ?thesis by simp
  qed
  obtain a1 b1 where f1: "float64 (tdiv d 1000000000, 1) = (a1, b1)"
    by (cases "float64 (tdiv d 1000000000, 1)")
  with float64_sign [of "tdiv d 1000000000" 1] q0 have s1: "0 \<le> a1" "0 < b1"
    by simp_all
  obtain a2 b2 where f2: "float64 (trem d 1000000000, 1) = (a2, b2)"
    by (cases "float64 (trem d 1000000000, 1)")
  with float64_sign [of "trem d 1000000000" 1] r0 have s2: "0 \<le> a2" "0 < b2"
    by simp_all
  obtain a3 b3 where f3: "float64 (a2, b2 * 1000000000) = (a3, b3)"
    by (cases "float64 (a2, b2 * 1000000000)")
  with float64_sign [of a2 "b2 * 1000000000"] s2 have s3: "0 \<le> a3" "0 < b3"
    by simp_all
  obtain a4 b4 where f4: "float64 (a1 * b3 + a3 * b1, b1 * b3) = (a4, b4)"
    by (cases "float64 (a1 * b3 + a3 * b1, b1 * b3)")
  with float64_sign [of "a1 * b3 + a3 * b1" "b1 * b3"] s1 s3 have s4: "0 \<le> a4" "0 < b4"
    by simp_all
  have "Seconds d = (a4, b4)"
    by (simp add: Seconds_def f1 f2 f3 f4 frac_add_def frac_div_def)
  then have "go_int (Seconds d) = tdiv a4 b4"
    by (simp add: go_int_def)
  with s4 show ?thesis
    by (simp add: freshness_def d_def [symmetric] tdiv_def sgn_if pos_imp_zdiv_nonneg_iff)
qed

lemma Seconds_minDuration: "go_int (Seconds (- (2 ^ 63))) = - 9223372036"
  by code_simp

lemma freshness_zero_time:
  assumes "0 \<le> now"
  shows "freshness zero_time now = - 9223372036"
proof -
  from assms have "time_Sub zero_time now = - (2 ^ 63)"
    by (simp add: time_Sub_def zero_time_def minDuration_def)
  then show ?thesis
    by (simp only: freshness_def Seconds_minDuration)
qed

lemma bit_length_gt: "a < 2 ^ nat (bit_length a)"
proof (rule ccontr)
  assume "\<not> a < 2 ^ nat (bit_length a)"
  then have "2 ^ nat (bit_length a) \<le> a"
    by simp
  then have "int (nat (bit_length a)) + 1 \<le> bit_length a"
    by (rule bit_length_ge)
  then show False
    using bit_length_nonneg [of a] by simp
qed

lemma floor_log2_le_52:
  assumes "0 < a" and "0 < b" and "a < 2 ^ 53 * b"
  shows "floor_log2 (a, b) \<le> 52"
proof (cases "pow2_le (bit_length a - bit_length b) (a, b)")
  case True
  show ?thesis
  proof (rule ccontr)
    assume "\<not> floor_log2 (a, b) \<le> 52"
    with True have k: "53 \<le> bit_length a - bit_length b"
      by (simp add: floor_log2_def Let_def)
    then have "(2::int) ^ 53 \<le> 2 ^ nat (bit_length a - bit_length b)"
      by (intro power_increasing) simp_all
    with assms(2) have "2 ^ 53 * b \<le> 2 ^ nat (bit_length a - bit_length b) * b"
      by (intro mult_right_mono) simp_all
    moreover from True k have "2 ^ nat (bit_length a - bit_length b) * b \<le> a"
      by (simp add: pow2_le_def)
    ultimately show False
      using assms(3) by simp
  qed
next
  case False
  have "b < 2 ^ nat (bit_length b)"
    by (rule bit_length_gt)
  with assms(2) have "2 ^ 53 * b < 2 ^ 53 * 2 ^ nat (bit_length b)"
    by simp
  with assms(3) have "a < 2 ^ (53 + nat (bit_length b))"
    by (simp add: power_add)
  with assms(1) have "bit_length a \<le> int (53 + nat (bit_length b))"
    by (rule bit_length_le)
  then have "bit_length a - bit_length b \<le> 53"
    using bit_length_nonneg [of b] by simp
  with False show ?thesis
    by (simp add: floor_log2_def Let_def)
qed

lemma float64_small:
  assumes "a \<noteq> 0" and "0 < b" and "\<bar>a\<bar> < 2 ^ 53 * b"
  shows "\<exists>j. float64 (a, b) =
           (if 2 * (a * 2 ^ j mod b) < b \<or> (2 * (a * 2 ^ j mod b) = b \<and> even (a * 2 ^ j div b))
            then a * 2 ^ j div b else a * 2 ^ j div b + 1,
            2 ^ j)"
proof -
  define s where "s = floor_log2 (\<bar>a\<bar>, b) - 52"
  from assms have "s \<le> 0"
    using floor_log2_le_52 [of "\<bar>a\<bar>" b] by (simp add: s_def)
  show ?thesis
  proof (cases "s < 0")
    case True
    have "float64 (a, b) =
           (if 2 * (a * 2 ^ nat (- s) mod b) < b
               \<or> (2 * (a * 2 ^ nat (- s) mod b) = b \<and> even (a * 2 ^ nat (- s) div b))
            then a * 2 ^ nat (- s) div b else a * 2 ^ nat (- s) div b + 1,
            2 ^ nat (- s))"
      unfolding float64_def Let_def prod.case s_def [symmetric]
      using \<open>a \<noteq> 0\<close> True by simp
    then show ?thesis ..
  next
    case False
    with \<open>s \<le> 0\<close> have "s = 0"
      by simp
    have "float64 (a, b) =
           (if 2 * (a * 2 ^ 0 mod b) < b \<or> (2 * (a * 2 ^ 0 mod b) = b \<and> even (a * 2 ^ 0 div b))
            then a * 2 ^ 0 div b else a * 2 ^ 0 div b + 1,
            2 ^ 0)"
      unfolding float64_def Let_def prod.case s_def [symmetric]
      using \<open>a \<noteq> 0\<close> \<open>s = 0\<close> by simp
    then show ?thesis ..
  qed
qed

lemma round_le:
  fixes n d k :: int
  assumes "0 < d" and "n \<le> k * d"
  shows "(if 2 * (n mod d) < d \<or> (2 * (n mod d) = d \<and> even (n div d))
          then n div d else n div d + 1) \<le> k"
proof -
  from assms have "n div d \<le> (k * d) div d"
    by (intro zdiv_mono1) simp_all
  with assms(1) have f: "n div d \<le> k"
    by simp
  show ?thesis
  proof (cases "n div d = k")
    case True
    have "n = d * (n div d) + n mod d"
      by simp
    with True assms(2) have "n mod d \<le> 0"
      by (simp add: algebra_simps)
    moreover from assms(1) have "0 \<le> n mod d"
      by simp
    ultimately have "n mod d = 0"
      by simp
    with assms(1) True show ?thesis
      by simp
  next
    case False
    with f show ?thesis
      by simp
  qed
qed

lemma round_ge:
  fixes n d k :: int
  assumes "0 < d" and "k * d \<le> n"
  shows "k \<le> (if 2 * (n mod d) < d \<or> (2 * (n mod d) = d \<and> even (n div d))
              then n div d else n div d + 1)"
proof -
  from assms have "(k * d) div d \<le> n div d"
    by (intro zdiv_mono1) simp_all
  with assms(1) have "k \<le> n div d"
    by simp
  then show ?thesis
    by simp
qed

lemma float64_le_neg:
  assumes "0 < b" and "a \<le> - b" and "- a < 2 ^ 53 * b"
  shows "fst (float64 (a, b)) \<le> - snd (float64 (a, b)) \<and> 0 < snd (float64 (a, b))"
proof -
  from assms have "a \<noteq> 0" and "\<bar>a\<bar> < 2 ^ 53 * b"
    by simp_all
  with float64_small [of a b] assms(1) obtain j where j: "float64 (a, b) =
           (if 2 * (a * 2 ^ j mod b) < b \<or> (2 * (a * 2 ^ j mod b) = b \<and> even (a * 2 ^ j div b))
            then a * 2 ^ j div b else a * 2 ^ j div b + 1,
            2 ^ j)"
    by blast
  from assms(2) have "a * 2 ^ j \<le> - b * 2 ^ j"
    by (intro mult_right_mono) simp_all
  then have "a * 2 ^ j \<le> - (2 ^ j) * b"
    by (simp add: mult.commute)
  from round_le [OF assms(1) this] show ?thesis
    by (simp only: j fst_conv snd_conv) simp
qed

lemma float64_ge_neg:
  assumes "0 < b" and "- b \<le> a" and "a \<le> 0"
  shows "- snd (float64 (a, b)) \<le> fst (float64 (a, b)) \<and> fst (float64 (a, b)) \<le> 0
         \<and> 0 < snd (float64 (a, b))"
proof (cases "a = 0")
  case True
  then show ?thesis
    by (simp add: float64_def)
next
  case False
  from assms have "\<bar>a\<bar> < 2 ^ 53 * b"
    by simp
  with float64_small [of a b] assms(1) False obtain j where j: "float64 (a, b) =
           (if 2 * (a * 2 ^ j mod b) < b \<or> (2 * (a * 2 ^ j mod b) = b \<and> even (a * 2 ^ j div b))
            then a * 2 ^ j div b else a * 2 ^ j div b + 1,
            2 ^ j)"
    by blast
  from assms(2) have "- b * 2 ^ j \<le> a * 2 ^ j"
    by (intro mult_right_mono) simp_all
  then have lo: "- (2 ^ j) * b \<le> a * 2 ^ j"
    by (simp add: mult.commute)
  from assms(3) have "a * 2 ^ j \<le> 0"
    by (simp add: mult_le_0_iff)
  then have hi: "a * 2 ^ j \<le> 0 * b"
    by simp
  from round_ge [OF assms(1) lo] round_le [OF assms(1) hi] show ?thesis
    by (simp only: j fst_conv snd_conv) simp
qed

lemma freshness_neg:
  assumes "nxt + 1000000000 \<le> now"
  shows "freshness nxt now < 0"
proof -
  define d where "d = time_Sub nxt now"
  have d1: "d \<le> - 1000000000" and d2: "- 9223372036854775808 \<le> d"
    using assms by (simp_all add: d_def time_Sub_def minDuration_def maxDuration_def)
  define sec where "sec = - (- d div 1000000000)"
  define nsec where "nsec = - (- d mod 1000000000)"
  have q: "tdiv d 1000000000 = sec"
    using d1 by (simp add: tdiv_def sec_def sgn_if)
  have r: "trem d 1000000000 = nsec"
  proof -
    have "- d = 1000000000 * (- d div 1000000000) + - d mod 1000000000"
      by (simp only: mult_div_mod_eq)
    then show ?thesis
      unfolding trem_def q sec_def nsec_def by linarith
  qed
  have sec1: "sec \<le> - 1" and sec2: "- 9223372036 \<le> sec"
    using d1 d2 by (simp_all add: sec_def) 
  have n1: "nsec \<le> 0" and n2: "- 1000000000 \<le> nsec"
    by (simp_all add: nsec_def)
  from sec1 sec2 have "\<bar>sec\<bar> < 2 ^ 53"
    by simp
  from float64_exact [OF this, of 0] obtain u where f1: "float64 (sec, 1) = (sec * 2 ^ u, 2 ^ u)"
    by auto
  from n1 n2 have "\<bar>nsec\<bar> < 2 ^ 53"
    by simp
  from float64_exact [OF this, of 0] obtain v where f2: "float64 (nsec, 1) = (nsec * 2 ^ v, 2 ^ v)"
    by auto
  obtain a3 b3 where f3: "float64 (nsec * 2 ^ v, 2 ^ v * 1000000000) = (a3, b3)"
    by (cases "float64 (nsec * 2 ^ v, 2 ^ v * 1000000000)")
  have "- 1000000000 * 2 ^ v \<le> nsec * 2 ^ v"
    using n2 by (intro mult_right_mono) simp_all
  then have "- (2 ^ v * 1000000000) \<le> nsec * 2 ^ v"
    by simp
  moreover have "nsec * 2 ^ v \<le> 0"
    using n1 by (simp add: mult_le_0_iff)
  ultimately have s3: "- b3 \<le> a3" "a3 \<le> 0" "0 < b3"
    using float64_ge_neg [of "2 ^ v * 1000000000" "nsec * 2 ^ v"] by (simp_all add: f3)
  define B where "B = 2 ^ u * b3"
  define A where "A = sec * 2 ^ u * b3 + a3 * 2 ^ u"
  have B0: "0 < B"
    using s3 by (simp add: B_def)
  have p: "(0::int) < 2 ^ u"
    by simp
  have e1: "sec * 2 ^ u * b3 = sec * B"
    by (simp add: B_def)
  have "sec * B \<le> - 1 * B"
    using sec1 B0 by (intro mult_right_mono) simp_all
  moreover have "a3 * 2 ^ u \<le> 0"
    using s3 by (simp add: mult_le_0_iff)
  ultimately have A1: "A \<le> - B"
    by (simp add: A_def e1)
  have "- 9223372036 * B \<le> sec * B"
    using sec2 B0 by (intro mult_right_mono) simp_all
  moreover have "- b3 * 2 ^ u \<le> a3 * 2 ^ u"
    using s3 by (intro mult_right_mono) simp_all
  then have "- B \<le> a3 * 2 ^ u"
    by (simp add: B_def mult.commute)
  ultimately have "- 9223372037 * B \<le> A"
    by (simp add: A_def e1)
  with B0 have A2: "- A < 2 ^ 53 * B"
    by simp
  obtain a4 b4 where f4: "float64 (A, B) = (a4, b4)"
    by (cases "float64 (A, B)")
  from float64_le_neg [OF B0 A1 A2] have s4: "a4 \<le> - b4" "0 < b4"
    by (simp_all add: f4)
  have "Seconds d = (a4, b4)"
    by (simp add: Seconds_def q r f1 f2 f3 frac_add_def frac_div_def A_def [symmetric]
        B_def [symmetric] f4)
  then have g: "go_int (Seconds d) = tdiv a4 b4"
    by (simp add: go_int_def)
  from s4 have "b4 \<le> \<bar>a4\<bar>"
    by simp
  with s4(2) have "0 < \<bar>a4\<bar> div b4"
    by (simp only: pos_imp_zdiv_pos_iff)
  with s4 have "tdiv a4 b4 < 0"
    by (simp add: tdiv_def sgn_if)
  with g show ?thesis
    by (simp add: freshness_def d_def [symmetric])
qed


text \<open>
  C3, as amended. The number after \<^verbatim>\<open>max-age=\<close> in the published entry is
  \<^verbatim>\<open>int(Next.Sub(now).Seconds())\<close> for the cron entry's \<^verbatim>\<open>Next\<close>, with nothing that keeps it
  from being negative: it is non-negative when \<^verbatim>\<open>Next\<close> is not before the clock reading; it
  is negative when \<^verbatim>\<open>Next\<close> is a second or more before the clock reading; it
  is \<open>k\<close> when \<^verbatim>\<open>Next\<close> is exactly \<open>k\<close> seconds away, before or after; and it is
  \<open>-9223372036\<close>, the saturated difference, when the entry has no next activation (the zero
  time) and the clock is past 1970.
\<close>

theorem freshness_window:
  "(query (endpoint j) (database env) [] = (written, Inr h)
      \<and> (FileBacked (endpoint j) \<longrightarrow> CreateTemp env st = Inr name) \<longrightarrow>
      (\<exists>st1 e. Job_Run j env st = Some st1
          \<and> entry_of st1 (Path (endpoint j)) = Some e
          \<and> CacheControl e
              = ''max-age=''
                @ fmt_d (go_int (Seconds (time_Sub (entry_next env) (now_maxage env))))
                @ '', immutable''))
   \<and> (now \<le> nxt \<longrightarrow> 0 \<le> freshness nxt now)
   \<and> (past + 1000000000 \<le> now \<longrightarrow> freshness past now < 0)
   \<and> (\<bar>k\<bar> \<le> 9223372036 \<longrightarrow> freshness (now + k * 1000000000) now = k)
   \<and> (0 \<le> now \<longrightarrow> freshness zero_time now = - 9223372036)"
proof (intro conjI impI)
  assume "query (endpoint j) (database env) [] = (written, Inr h)
      \<and> (FileBacked (endpoint j) \<longrightarrow> CreateTemp env st = Inr name)"
  then have q: "query (endpoint j) (database env) [] = (written, Inr h)"
    and t: "FileBacked (endpoint j) \<longrightarrow> CreateTemp env st = Inr name"
    by simp_all
  from Job_Run_success [OF q t] obtain st1
    where run: "Job_Run j env st = Some st1"
      and en: "entry_of st1 (Path (endpoint j)) = Some (published_entry j env h written name)"
    by blast
  have "CacheControl (published_entry j env h written name)
          = ''max-age=''
            @ fmt_d (go_int (Seconds (time_Sub (entry_next env) (now_maxage env))))
            @ '', immutable''"
    by (simp add: published_entry_def freshness_def)
  with run en
  show "\<exists>st1 e. Job_Run j env st = Some st1
          \<and> entry_of st1 (Path (endpoint j)) = Some e
          \<and> CacheControl e
              = ''max-age=''
                @ fmt_d (go_int (Seconds (time_Sub (entry_next env) (now_maxage env))))
                @ '', immutable''"
    by blast
next
  assume "now \<le> nxt"
  then show "0 \<le> freshness nxt now"
    by (rule freshness_nonneg)
next
  assume "past + 1000000000 \<le> now"
  then show "freshness past now < 0"
    by (rule freshness_neg)
next
  assume "\<bar>k\<bar> \<le> 9223372036"
  then show "freshness (now + k * 1000000000) now = k"
    by (rule freshness_whole_seconds)
next
  assume "0 \<le> now"
  then show "freshness zero_time now = - 9223372036"
    by (rule freshness_zero_time)
qed

lemma ex_query_mem:
  \<open>query (endpoint ex_job) (database ex_env) [] =
     (''[\<newline>  {"col1":"a","col2":1}\<newline>]\<newline>'', Inr 0x4598223d08c4dd54)\<close>
  by code_simp

lemma ex_max_age:
  "''max-age='' @ fmt_d (go_int (Seconds (time_Sub (entry_next ex_env) (now_maxage ex_env))))
     @ '', immutable'' = ''max-age=299, immutable''"
  by code_simp

theorem freshness_window_witness:
  \<open>query (endpoint ex_job) (database ex_env) [] =
     (''[\<newline>  {"col1":"a","col2":1}\<newline>]\<newline>'', Inr 0x4598223d08c4dd54)
   \<and> \<not> FileBacked (endpoint ex_job)
   \<and> (\<exists>st1 e. Job_Run ex_job ex_env ex_world0 = Some st1
         \<and> entry_of st1 ''/x'' = Some e
         \<and> CacheControl e = ''max-age=299, immutable'')
   \<and> (1731561600123460000 :: int) \<le> 1731561900000000000
   \<and> 0 \<le> freshness 1731561900000000000 1731561600123460000
   \<and> (1731561598000000000 :: int) + 1000000000 \<le> 1731561600123460000
   \<and> freshness 1731561598000000000 1731561600123460000 < 0
   \<and> \<bar>- 5 :: int\<bar> \<le> 9223372036
   \<and> freshness (1731561600123460000 + (- 5) * 1000000000) 1731561600123460000 = - 5
   \<and> (0 :: int) \<le> 1731561600123460000
   \<and> freshness zero_time 1731561600123460000 = - 9223372036\<close>
proof -
  have nf: "\<not> FileBacked (endpoint ex_job)"
    by (simp add: ex_job_def ex_cfg_def)
  have pa: "Path (endpoint ex_job) = ''/x''"
    by (simp add: ex_job_def ex_cfg_def)
  note inst = freshness_window [where j = ex_job and env = ex_env and st = ex_world0
      and h = "0x4598223d08c4dd54" and name = "[]"
      and now = 1731561600123460000 and nxt = 1731561900000000000
      and past = 1731561598000000000 and k = "- 5"]
  from inst ex_query_mem nf
  have "\<exists>st1 e. Job_Run ex_job ex_env ex_world0 = Some st1
         \<and> entry_of st1 (Path (endpoint ex_job)) = Some e
         \<and> CacheControl e
              = ''max-age=''
                @ fmt_d (go_int (Seconds (time_Sub (entry_next ex_env) (now_maxage ex_env))))
                @ '', immutable''"
    by blast
  then have a: "\<exists>st1 e. Job_Run ex_job ex_env ex_world0 = Some st1
         \<and> entry_of st1 ''/x'' = Some e
         \<and> CacheControl e = ''max-age=299, immutable''"
    by (simp only: pa ex_max_age)
  have b: "(1731561600123460000 :: int) \<le> 1731561900000000000"
    by simp
  with inst have c: "0 \<le> freshness 1731561900000000000 1731561600123460000"
    by blast
  have d: "\<bar>- 5 :: int\<bar> \<le> 9223372036"
    by simp
  with inst
  have e: "freshness (1731561600123460000 + (- 5) * 1000000000) 1731561600123460000 = - 5"
    by blast
  have f: "(0 :: int) \<le> 1731561600123460000"
    by simp
  with inst have g: "freshness zero_time 1731561600123460000 = - 9223372036"
    by blast
  have p: "(1731561598000000000 :: int) + 1000000000 \<le> 1731561600123460000"
    by simp
  with inst have n: "freshness 1731561598000000000 1731561600123460000 < 0"
    by blast
  from ex_query_mem nf a b c p n d e f g show ?thesis
    by (intro conjI)
qed

text \<open>
  C3 as stated fails: with no next activation the run of the example publishes
  \<^verbatim>\<open>max-age=-9223372036\<close>, not 0, and with a next activation five seconds in the past it
  publishes \<^verbatim>\<open>max-age=-5\<close>.
\<close>

theorem freshness_window_counterexample:
  "cache_control_after (Job_Run ex_job ex_env_no_next ex_world0) ''/x''
     = Some ''max-age=-9223372036, immutable''
   \<and> entry_next ex_env_no_next = zero_time
   \<and> freshness (entry_next ex_env_no_next) (now_maxage ex_env_no_next) < 0
   \<and> cache_control_after (Job_Run ex_job ex_env_late ex_world0) ''/x''
     = Some ''max-age=-5, immutable''
   \<and> freshness (entry_next ex_env_late) (now_maxage ex_env_late) = - 5"
  by code_simp

subsection \<open>The serialized rows\<close>

lemma rows_loop_ok:
  "rows_json rowformat columns evs = Inr js \<Longrightarrow>
     rows_loop rowformat columns evs first digest w =
       (w @ (if js = [] then [] else (if first then [] else '','' @ [newline])
               @ join ('','' @ [newline]) (map indent js)),
        Inr (digest @ concat js))"
proof (induction evs arbitrary: js first digest w)
  case Nil
  then show ?case by simp
next
  case (Cons ev evs)
  from Cons.prems obtain j js' where j: "row_json rowformat columns ev = Inr j"
    and js': "rows_json rowformat columns evs = Inr js'" and js: "js = j # js'"
    by (auto split: sum.splits)
  from j obtain vals r where ev: "ev = Inr vals"
    and r: "make_row rowformat columns vals = Inr r" and m: "json_Marshal r = Inr j"
    by (auto simp: row_json_def split: sum.splits)
  show ?case
  proof (cases js')
    case Nil
    with Cons.IH [OF js'] show ?thesis
      by (simp add: ev r m js indent_def)
  next
    case (Cons j2 js2)
    with Cons.IH [OF js'] show ?thesis
      by (simp add: ev r m js indent_def)
  qed
qed

lemma rows_loop_fault:
  "rows_json rowformat columns evs = Inl f \<Longrightarrow>
     snd (rows_loop rowformat columns evs first digest w) = Inl f"
proof (induction evs arbitrary: first digest w)
  case Nil
  then show ?case by simp
next
  case (Cons ev evs)
  then show ?case
    by (auto simp: row_json_def split: sum.splits)
qed

lemma query_ok:
  assumes "query_err db = None" and "rows_err db = None"
    and "rows_json (RowFormat e) (columns_of e db) (row_events db) = Inr js"
  shows "query e db w =
           (w @ ''['' @ [newline] @ join ('','' @ [newline]) (map indent js)
              @ [newline] @ '']'' @ [newline],
            Inr (Sum64 (concat js)))"
  using assms rows_loop_ok [OF assms(3) [unfolded columns_of_def], of True "[]" "w @ ''['' @ [newline]"]
  by (cases js) (simp_all add: query_def columns_of_def indent_def)

lemma query_Inr:
  assumes "snd (query e db w) = Inr h"
  shows "query_err db = None \<and> rows_err db = None
         \<and> (\<exists>js. rows_json (RowFormat e) (columns_of e db) (row_events db) = Inr js
                \<and> h = Sum64 (concat js))"
proof (cases "rows_json (RowFormat e) (columns_of e db) (row_events db)")
  case (Inl f)
  from rows_loop_fault [OF Inl [unfolded columns_of_def], of True "[]" "w @ ''['' @ [newline]"] assms
  show ?thesis
    by (auto simp: query_def columns_of_def Let_def split: option.splits prod.splits sum.splits)
next
  case (Inr js)
  from rows_loop_ok [OF Inr [unfolded columns_of_def], of True "[]" "w @ ''['' @ [newline]"] assms
  show ?thesis
    using Inr
    by (auto simp: query_def columns_of_def Let_def split: option.splits prod.splits sum.splits)
qed

text \<open>
  C7, as amended. When the query succeeds, the bytes written are \<^verbatim>\<open>[\<close> and a newline, the
  JSON texts of the rows, each after two spaces and separated by a comma and a newline,
  then a newline, \<^verbatim>\<open>]\<close> and a newline. With \<^verbatim>\<open>rowformat=array\<close> the text of a row is
  \<^verbatim>\<open>[v1,...,vn]\<close> from the encodings of its values. With any other row format, for a row
  with as many values as there are columns, it is \<^verbatim>\<open>{"k1":v1,...}\<close> over the map from column
  names to values: the keys are the distinct column names in sorted order, and a name
  that occurs twice keeps the value of its last column. The row \<^verbatim>\<open>("a", 1)\<close> under the
  columns \<^verbatim>\<open>col1\<close>, \<^verbatim>\<open>col2\<close> in object format gives the body of the line before the
  last, which without its white space is \<^verbatim>\<open>[{"col1":"a","col2":1}]\<close>.
\<close>

theorem rows_serialization:
  \<open>(query_err db = None \<and> rows_err db = None
      \<and> rows_json (RowFormat e) (columns_of e db) (row_events db) = Inr js \<longrightarrow>
      fst (query e db w)
        = w @ ''['' @ [newline] @ join ('','' @ [newline]) (map indent js)
            @ [newline] @ '']'' @ [newline])
   \<and> (marshal_elems (map (\<lambda>v. ([], v)) vs) = Inr ts \<longrightarrow>
        row_json ''array'' cols (Inr vs) = Inr (''['' @ join '','' ts @ '']''))
   \<and> (rowformat \<noteq> ''array'' \<and> length vs = length cols \<longrightarrow>
        (\<exists>m. make_row rowformat cols vs = Inr (RowObject m)
            \<and> map fst (sort_key fst m) = sorted_list_of_set (set cols)
            \<and> map_of m = [cols [\<mapsto>] vs]
            \<and> (\<forall>ms. marshal_elems (map (\<lambda>(k, v). (appendString k @ '':'', v)) (sort_key fst m))
                        = Inr ms
                  \<longrightarrow> row_json rowformat cols (Inr vs) = Inr (''{'' @ join '','' ms @ ''}''))))
   \<and> fst (query ex_cfg ex_db []) = ''[\<newline>  {"col1":"a","col2":1}\<newline>]\<newline>''
   \<and> json_compact (fst (query ex_cfg ex_db [])) = ''[{"col1":"a","col2":1}]''\<close>
proof (intro conjI impI)
  assume "query_err db = None \<and> rows_err db = None
      \<and> rows_json (RowFormat e) (columns_of e db) (row_events db) = Inr js"
  then show "fst (query e db w)
        = w @ ''['' @ [newline] @ join ('','' @ [newline]) (map indent js)
            @ [newline] @ '']'' @ [newline]"
    using query_ok [of db e js w] by simp
next
  assume "marshal_elems (map (\<lambda>v. ([], v)) vs) = Inr ts"
  then show "row_json ''array'' cols (Inr vs) = Inr (''['' @ join '','' ts @ '']'')"
    by (simp add: row_json_def make_row_def)
next
  assume a: "rowformat \<noteq> ''array'' \<and> length vs = length cols"
  let ?m = "AList.updates cols vs []"
  from a have r: "make_row rowformat cols vs = Inr (RowObject ?m)"
    by (simp add: object_row)
  from a have k: "map fst (sort_key fst ?m) = sorted_list_of_set (set cols)"
    by (simp add: object_row_keys)
  have v: "map_of ?m = [cols [\<mapsto>] vs]"
    by (simp add: updates_conv')
  have j: "\<forall>ms. marshal_elems (map (\<lambda>(k, v). (appendString k @ '':'', v)) (sort_key fst ?m))
                        = Inr ms
                  \<longrightarrow> row_json rowformat cols (Inr vs) = Inr (''{'' @ join '','' ms @ ''}'')"
    by (simp add: row_json_def r)
  from r k v j
  show "\<exists>m. make_row rowformat cols vs = Inr (RowObject m)
            \<and> map fst (sort_key fst m) = sorted_list_of_set (set cols)
            \<and> map_of m = [cols [\<mapsto>] vs]
            \<and> (\<forall>ms. marshal_elems (map (\<lambda>(k, v). (appendString k @ '':'', v)) (sort_key fst m))
                        = Inr ms
                  \<longrightarrow> row_json rowformat cols (Inr vs) = Inr (''{'' @ join '','' ms @ ''}''))"
    by blast
next
  show \<open>fst (query ex_cfg ex_db []) = ''[\<newline>  {"col1":"a","col2":1}\<newline>]\<newline>''\<close>
    by (simp only: query_example fst_conv)
next
  show \<open>json_compact (fst (query ex_cfg ex_db [])) = ''[{"col1":"a","col2":1}]''\<close>
    by code_simp
qed

lemma ex_rows_json:
  \<open>rows_json (RowFormat ex_cfg) (columns_of ex_cfg ex_db) (row_events ex_db)
     = Inr [''{"col1":"a","col2":1}'']\<close>
  by code_simp

lemma ex_marshal_elems:
  \<open>marshal_elems (map (\<lambda>v. ([], v)) [PgText ''a'', PgInt 1]) = Inr [''"a"'', ''1'']\<close>
  by code_simp

theorem rows_serialization_witness:
  \<open>query_err ex_db = None \<and> rows_err ex_db = None
   \<and> rows_json (RowFormat ex_cfg) (columns_of ex_cfg ex_db) (row_events ex_db)
       = Inr [''{"col1":"a","col2":1}'']
   \<and> fst (query ex_cfg ex_db ''x'') = ''x[\<newline>  {"col1":"a","col2":1}\<newline>]\<newline>''
   \<and> marshal_elems (map (\<lambda>v. ([], v)) [PgText ''a'', PgInt 1]) = Inr [''"a"'', ''1'']
   \<and> row_json ''array'' [] (Inr [PgText ''a'', PgInt 1]) = Inr ''["a",1]''
   \<and> ''object'' \<noteq> ''array''
   \<and> length [PgText ''a'', PgInt 1] = length [''col1'', ''col2'']
   \<and> (\<exists>m. make_row ''object'' [''col1'', ''col2''] [PgText ''a'', PgInt 1] = Inr (RowObject m)
         \<and> map fst (sort_key fst m) = [''col1'', ''col2'']
         \<and> map_of m ''col2'' = Some (PgInt 1))\<close>
proof -
  note inst = rows_serialization [where db = ex_db and e = ex_cfg
      and js = \<open>[''{"col1":"a","col2":1}'']\<close> and w = "''x''"
      and vs = "[PgText ''a'', PgInt 1]" and ts = \<open>[''"a"'', ''1'']\<close>
      and rowformat = "''object''" and cols = "[''col1'', ''col2'']"]
  have q: "query_err ex_db = None" and r: "rows_err ex_db = None"
    by (simp_all add: ex_db_def)
  from inst q r ex_rows_json
  have \<open>fst (query ex_cfg ex_db ''x'')
        = ''x'' @ ''['' @ [newline] @ join ('','' @ [newline]) (map indent [''{"col1":"a","col2":1}''])
            @ [newline] @ '']'' @ [newline]\<close>
    by blast
  then have a: \<open>fst (query ex_cfg ex_db ''x'') = ''x[\<newline>  {"col1":"a","col2":1}\<newline>]\<newline>''\<close>
    by (simp add: indent_def newline_def)
  from inst ex_marshal_elems
  have "row_json ''array'' [''col1'', ''col2''] (Inr [PgText ''a'', PgInt 1])
          = Inr (''['' @ join '','' [''\"a\"'', ''1''] @ '']'')"
    by blast
  then have \<open>row_json ''array'' [''col1'', ''col2''] (Inr [PgText ''a'', PgInt 1]) = Inr ''["a",1]''\<close>
    by simp
  then have b: \<open>row_json ''array'' [] (Inr [PgText ''a'', PgInt 1]) = Inr ''["a",1]''\<close>
    by (simp add: row_json_def make_row_def)
  have c: "''object'' \<noteq> ''array''" and d: "length [PgText ''a'', PgInt 1] = length [''col1'', ''col2'']"
    by simp_all
  with inst obtain m
    where m1: "make_row ''object'' [''col1'', ''col2''] [PgText ''a'', PgInt 1] = Inr (RowObject m)"
      and m2: "map fst (sort_key fst m) = sorted_list_of_set (set [''col1'', ''col2''])"
      and m3: "map_of m = [[''col1'', ''col2''] [\<mapsto>] [PgText ''a'', PgInt 1]]"
    by blast
  from m2 have m2': "map fst (sort_key fst m) = [''col1'', ''col2'']"
    by (simp only: ex_sorted_columns)
  from m3 have m3': "map_of m ''col2'' = Some (PgInt 1)"
    by simp
  from m1 m2' m3'
  have e: "\<exists>m. make_row ''object'' [''col1'', ''col2''] [PgText ''a'', PgInt 1] = Inr (RowObject m)
         \<and> map fst (sort_key fst m) = [''col1'', ''col2'']
         \<and> map_of m ''col2'' = Some (PgInt 1)"
    by (intro exI [of _ m] conjI)
  from q r ex_rows_json a ex_marshal_elems b c d e show ?thesis
    by (intro conjI)
qed

text \<open>
  C7 as stated fails on the body of its example: the bytes written are not
  \<^verbatim>\<open>[{"col1":"a","col2":1}]\<close>, they have the line breaks and the two spaces.
\<close>

theorem rows_serialization_counterexample:
  \<open>fst (query ex_cfg ex_db []) \<noteq> ''[{"col1":"a","col2":1}]''\<close>
  by (simp add: query_example)

subsection \<open>The fingerprint\<close>

text \<open>
  C8, as amended. The hash \<^verbatim>\<open>query\<close> returns is the xxHash of the concatenation of the
  JSON texts of the rows, in order. Two successful queries whose rows have the same
  texts have the same hash and the same \<^verbatim>\<open>ETag\<close>; in particular two queries with the same
  row format, column names and rows, whatever the path, the storage mode or the writer.
\<close>

theorem fingerprint_of_rows:
  "(snd (query e db w) = Inr h \<longrightarrow>
      (\<exists>js. rows_json (RowFormat e) (columns_of e db) (row_events db) = Inr js
           \<and> h = Sum64 (concat js)))
   \<and> (snd (query e db w) = Inr h \<and> snd (query e' db' w') = Inr h'
        \<and> rows_json (RowFormat e) (columns_of e db) (row_events db)
            = rows_json (RowFormat e') (columns_of e' db') (row_events db') \<longrightarrow>
      h = h' \<and> etag_of h = etag_of h')
   \<and> (snd (query e db w) = Inr h \<and> snd (query e' db' w') = Inr h'
        \<and> RowFormat e = RowFormat e' \<and> field_names db = field_names db'
        \<and> row_events db = row_events db' \<longrightarrow>
      h = h' \<and> etag_of h = etag_of h')"
proof (intro conjI impI)
  assume "snd (query e db w) = Inr h"
  from query_Inr [OF this]
  show "\<exists>js. rows_json (RowFormat e) (columns_of e db) (row_events db) = Inr js
           \<and> h = Sum64 (concat js)"
    by blast
next
  assume a: "snd (query e db w) = Inr h \<and> snd (query e' db' w') = Inr h'
        \<and> rows_json (RowFormat e) (columns_of e db) (row_events db)
            = rows_json (RowFormat e') (columns_of e' db') (row_events db')"
  then have "h = h'"
    using query_Inr [of e db w h] query_Inr [of e' db' w' h'] by auto
  then show "h = h'" and "etag_of h = etag_of h'"
    by simp_all
next
  assume a: "snd (query e db w) = Inr h \<and> snd (query e' db' w') = Inr h'
        \<and> RowFormat e = RowFormat e' \<and> field_names db = field_names db'
        \<and> row_events db = row_events db'"
  then have "rows_json (RowFormat e) (columns_of e db) (row_events db)
            = rows_json (RowFormat e') (columns_of e' db') (row_events db')"
    by (simp add: columns_of_def)
  with a have "h = h'"
    using query_Inr [of e db w h] query_Inr [of e' db' w' h'] by auto
  then show "h = h'" and "etag_of h = etag_of h'"
    by simp_all
qed

lemma ex_dup_query:
  "snd (query ex_cfg ex_db_dup_x []) = Inr 0x81daf43a7df7d59e"
  "snd (query ex_cfg ex_db_dup_y ''x'') = Inr 0x81daf43a7df7d59e"
  by code_simp+

lemma ex_dup_rows_json:
  "rows_json (RowFormat ex_cfg) (columns_of ex_cfg ex_db_dup_x) (row_events ex_db_dup_x)
     = rows_json (RowFormat ex_cfg) (columns_of ex_cfg ex_db_dup_y) (row_events ex_db_dup_y)"
  by code_simp

theorem fingerprint_of_rows_witness:
  \<open>snd (query ex_cfg ex_db_dup_x []) = Inr 0x81daf43a7df7d59e
   \<and> snd (query ex_cfg ex_db_dup_y ''x'') = Inr 0x81daf43a7df7d59e
   \<and> rows_json (RowFormat ex_cfg) (columns_of ex_cfg ex_db_dup_x) (row_events ex_db_dup_x)
       = rows_json (RowFormat ex_cfg) (columns_of ex_cfg ex_db_dup_y) (row_events ex_db_dup_y)
   \<and> (\<exists>js. rows_json (RowFormat ex_cfg) (columns_of ex_cfg ex_db_dup_x) (row_events ex_db_dup_x)
               = Inr js
            \<and> (0x81daf43a7df7d59e :: 64 word) = Sum64 (concat js))
   \<and> etag_of 0x81daf43a7df7d59e = etag_of 0x81daf43a7df7d59e
   \<and> RowFormat ex_cfg = RowFormat (ex_cfg\<lparr>FileBacked := True\<rparr>)
   \<and> snd (query (ex_cfg\<lparr>FileBacked := True\<rparr>) ex_db_dup_x []) = Inr 0x81daf43a7df7d59e\<close>
proof -
  note inst = fingerprint_of_rows [where e = ex_cfg and db = ex_db_dup_x and w = "[]"
      and h = "0x81daf43a7df7d59e" and e' = ex_cfg and db' = ex_db_dup_y and w' = "''x''"
      and h' = "0x81daf43a7df7d59e"]
  from inst ex_dup_query(1)
  have a: "\<exists>js. rows_json (RowFormat ex_cfg) (columns_of ex_cfg ex_db_dup_x) (row_events ex_db_dup_x)
               = Inr js
            \<and> (0x81daf43a7df7d59e :: 64 word) = Sum64 (concat js)"
    by blast
  from inst ex_dup_query ex_dup_rows_json
  have b: "etag_of 0x81daf43a7df7d59e = etag_of 0x81daf43a7df7d59e"
    by blast
  have c: "RowFormat ex_cfg = RowFormat (ex_cfg\<lparr>FileBacked := True\<rparr>)"
    by simp
  have d: "snd (query (ex_cfg\<lparr>FileBacked := True\<rparr>) ex_db_dup_x []) = Inr 0x81daf43a7df7d59e"
    by code_simp
  from ex_dup_query ex_dup_rows_json a b c d show ?thesis
    by (intro conjI)
qed


text \<open>
  C8 as stated fails on its second half: in object format under the columns \<^verbatim>\<open>a\<close>, \<^verbatim>\<open>a\<close>
  the rows \<^verbatim>\<open>("x", "z")\<close> and \<^verbatim>\<open>("y", "z")\<close> differ in one byte and have the same hash,
  since both are written as \<^verbatim>\<open>{"a":"z"}\<close>.
\<close>

theorem fingerprint_of_rows_counterexample:
  "snd (query ex_cfg ex_db_dup_x []) = Inr 0x81daf43a7df7d59e
   \<and> snd (query ex_cfg ex_db_dup_y []) = Inr 0x81daf43a7df7d59e
   \<and> row_events ex_db_dup_x = [Inr [PgText ''x'', PgText ''z'']]
   \<and> row_events ex_db_dup_y = [Inr [PgText ''y'', PgText ''z'']]
   \<and> field_names ex_db_dup_x = field_names ex_db_dup_y
   \<and> row_events ex_db_dup_x \<noteq> row_events ex_db_dup_y"
  by code_simp

end
